theory Spec2Isabelle
  imports Main "HOL-Library.Sublist" "HOL-Library.AList"
begin

section \<open>JavaScript values\<close>

text \<open>
  The values \<^verbatim>\<open>JSON.parse\<close> produces, and \<^verbatim>\<open>undefined\<close>. An object is the list of its
  own properties. Numbers are only passed on or tested for being zero by this program,
  so they are integers here. Strings are lists of code units below 256.
\<close>

datatype jsv =
    JUndefined
  | JNull
  | JBool bool
  | JNum int
  | JStr string
  | JArr "jsv list"
  | JObj "(string \<times> jsv) list"

text \<open>
  A JavaScript call either returns or throws; the thrown value is kept as its message.
\<close>

datatype 'a outcome = Returns 'a | Throws string

definition obind :: "'a outcome \<Rightarrow> ('a \<Rightarrow> 'b outcome) \<Rightarrow> 'b outcome" where
  "obind m k = (case m of Throws e \<Rightarrow> Throws e | Returns v \<Rightarrow> k v)"

text \<open>\<^verbatim>\<open>try { body } catch (e) { handler }\<close>.\<close>

definition try_catch :: "'a outcome \<Rightarrow> (string \<Rightarrow> 'a outcome) \<Rightarrow> 'a outcome" where
  "try_catch body handler = (case body of Throws e \<Rightarrow> handler e | Returns v \<Rightarrow> Returns v)"

text \<open>
  What the program takes from the JavaScript runtime: \<^verbatim>\<open>JSON.parse\<close> on a string, which
  returns a value or throws a SyntaxError, and the conversion \<^verbatim>\<open>ToString\<close> that
  \<^verbatim>\<open>JSON.parse\<close> applies first to an argument that is not a string.
\<close>

record runtime =
  JSON_parse :: "string \<Rightarrow> jsv outcome"
  ToString :: "jsv \<Rightarrow> string"

definition JSON_parse_value :: "runtime \<Rightarrow> jsv \<Rightarrow> jsv outcome" where
  "JSON_parse_value rt v = (case v of JStr s \<Rightarrow> JSON_parse rt s | _ \<Rightarrow> JSON_parse rt (ToString rt v))"

text \<open>
  Reading a property: \<^verbatim>\<open>undefined\<close> and \<^verbatim>\<open>null\<close> throw a TypeError, an object gives
  its own property or \<^verbatim>\<open>undefined\<close>, and every other value gives \<^verbatim>\<open>undefined\<close> (none
  of the property names this program reads exists on the prototype of a string, number,
  boolean or array).
\<close>

fun get_prop :: "jsv \<Rightarrow> string \<Rightarrow> jsv outcome" where
  "get_prop JUndefined k = Throws ''TypeError''"
| "get_prop JNull k = Throws ''TypeError''"
| "get_prop (JObj props) k = Returns (case map_of props k of None \<Rightarrow> JUndefined | Some v \<Rightarrow> v)"
| "get_prop v k = Returns JUndefined"

text \<open>Optional chaining \<^verbatim>\<open>v?.k\<close>.\<close>

fun get_prop_opt :: "jsv \<Rightarrow> string \<Rightarrow> jsv outcome" where
  "get_prop_opt JUndefined k = Returns JUndefined"
| "get_prop_opt JNull k = Returns JUndefined"
| "get_prop_opt v k = get_prop v k"

fun truthy :: "jsv \<Rightarrow> bool" where
  "truthy JUndefined = False"
| "truthy JNull = False"
| "truthy (JBool b) = b"
| "truthy (JNum n) = (n \<noteq> 0)"
| "truthy (JStr s) = (s \<noteq> [])"
| "truthy (JArr xs) = True"
| "truthy (JObj props) = True"

text \<open>\<^verbatim>\<open>a || b\<close> on values already computed.\<close>

definition js_or :: "jsv \<Rightarrow> jsv \<Rightarrow> jsv" where
  "js_or a b = (if truthy a then a else b)"

fun typeof_object :: "jsv \<Rightarrow> bool" where
  "typeof_object JNull = True"
| "typeof_object (JArr xs) = True"
| "typeof_object (JObj props) = True"
| "typeof_object v = False"

fun typeof_string :: "jsv \<Rightarrow> bool" where
  "typeof_string (JStr s) = True"
| "typeof_string v = False"

text \<open>
  The method call \<^verbatim>\<open>v.startsWith(p)\<close> on a value that is not nullish: only a string has the
  method, on anything else the call throws a TypeError.
\<close>

fun startsWith :: "jsv \<Rightarrow> string \<Rightarrow> bool outcome" where
  "startsWith (JStr s) p = Returns (prefix p s)"
| "startsWith v p = Throws ''TypeError''"

text \<open>
  \<^verbatim>\<open>String.prototype.trim\<close>: white space and line terminators among the code units
  below 256 are TAB, LF, VT, FF, CR, SPACE and NBSP.
\<close>

definition js_whitespace :: "char \<Rightarrow> bool" where
  "js_whitespace c \<longleftrightarrow> c \<in> set [CHR 0x09, CHR 0x0A, CHR 0x0B, CHR 0x0C, CHR 0x0D, CHR 0x20, CHR 0xA0]"

definition trim :: "string \<Rightarrow> string" where
  "trim s = rev (dropWhile js_whitespace (rev (dropWhile js_whitespace s)))"

section \<open>Frame decoder (MessageParser.ts)\<close>

subsection \<open>Emote placeholders\<close>

text \<open>
  The regular expression \<^verbatim>\<open>/\[emote:(\d+):(\w+)\]/g\<close>. \<^verbatim>\<open>\d\<close> is an ASCII digit and
  \<^verbatim>\<open>\w\<close> an ASCII letter, digit or underscore.
\<close>

definition is_digit :: "char \<Rightarrow> bool" where
  "is_digit c \<longleftrightarrow> c \<in> set ''0123456789''"

definition is_word :: "char \<Rightarrow> bool" where
  "is_word c \<longleftrightarrow>
     c \<in> set ''abcdefghijklmnopqrstuvwxyzABCDEFGHIJKLMNOPQRSTUVWXYZ0123456789_''"

text \<open>The literal part of a pattern: strip it from the front of the input.\<close>

fun literal :: "string \<Rightarrow> string \<Rightarrow> string option" where
  "literal [] s = Some s"
| "literal (p # ps) [] = None"
| "literal (p # ps) (c # cs) = (if p = c then literal ps cs else None)"

text \<open>A greedy \<^verbatim>\<open>+\<close> over a character class: the longest run, which must not be empty.\<close>

definition many1 :: "(char \<Rightarrow> bool) \<Rightarrow> string \<Rightarrow> (string \<times> string) option" where
  "many1 cls s = (if takeWhile cls s = [] then None else Some (takeWhile cls s, dropWhile cls s))"

text \<open>
  One match attempt at the front of the input; the result is the second group and the
  input after the match. The run of digits is followed by a colon and the run of word
  characters by a bracket, neither of which is in the class before it, so giving back
  characters of a run never leads to a match and the longest runs decide.
\<close>

definition match_emote :: "string \<Rightarrow> (string \<times> string) option" where
  "match_emote s =
     (case literal ''[emote:'' s of
        None \<Rightarrow> None
      | Some s1 \<Rightarrow>
          (case many1 is_digit s1 of
             None \<Rightarrow> None
           | Some (digits, s2) \<Rightarrow>
               (case literal '':'' s2 of
                  None \<Rightarrow> None
                | Some s3 \<Rightarrow>
                    (case many1 is_word s3 of
                       None \<Rightarrow> None
                     | Some (name, s4) \<Rightarrow>
                         (case literal '']'' s4 of
                            None \<Rightarrow> None
                          | Some rest \<Rightarrow> Some (name, rest))))))"

lemma literal_length: "literal p s = Some r \<Longrightarrow> length s = length p + length r"
  by (induction p s rule: literal.induct) (auto split: if_splits)

lemma match_emote_shorter: "match_emote s = Some (name, rest) \<Longrightarrow> length rest < length s"
proof -
  assume m: "match_emote s = Some (name, rest)"
  then obtain s1 where s1: "literal ''[emote:'' s = Some s1"
    by (auto simp: match_emote_def split: option.splits)
  from m s1 obtain ds s2 where s2: "many1 is_digit s1 = Some (ds, s2)"
    by (auto simp: match_emote_def split: option.splits)
  from m s1 s2 obtain s3 where s3: "literal '':'' s2 = Some s3"
    by (auto simp: match_emote_def split: option.splits)
  from m s1 s2 s3 obtain s4 where s4: "many1 is_word s3 = Some (name, s4)" and r: "literal '']'' s4 = Some rest"
    by (auto simp: match_emote_def split: option.splits)
  have "length s2 \<le> length s1" "length s4 \<le> length s3"
    using s2 s4 by (auto simp: many1_def length_dropWhile_le split: if_splits)
  with literal_length [OF s1] literal_length [OF s3] literal_length [OF r]
  show ?thesis by simp
qed

text \<open>
  \<^verbatim>\<open>content.replace(re, "$2")\<close> with the global flag: scan from the left; at a match emit
  the second group and go on after the match, otherwise copy one character.
\<close>

function replace_emotes :: "string \<Rightarrow> string" where
  "replace_emotes [] = []"
| "replace_emotes (c # cs) =
     (case match_emote (c # cs) of
        Some (name, rest) \<Rightarrow> name @ replace_emotes rest
      | None \<Rightarrow> c # replace_emotes cs)"
  by pat_completeness auto
termination
  by (relation "measure length") (auto dest: match_emote_shorter)

text \<open>
  \<^verbatim>\<open>cleanEmotes\<close>: a falsy content gives the empty string; a string is rewritten; any
  other truthy value has no \<^verbatim>\<open>replace\<close> method, and the call throws.
\<close>

definition cleanEmotes :: "jsv \<Rightarrow> jsv outcome" where
  "cleanEmotes content =
     (if \<not> truthy content then Returns (JStr [])
      else case content of
             JStr s \<Rightarrow> Returns (JStr (replace_emotes s))
           | _ \<Rightarrow> Throws ''TypeError'')"

subsection \<open>Payload normalisation\<close>

text \<open>\<^verbatim>\<open>Array.prototype.map\<close> with a callback that may throw: the first throw ends the call.\<close>

fun map_outcome :: "('a \<Rightarrow> 'b outcome) \<Rightarrow> 'a list \<Rightarrow> 'b list outcome" where
  "map_outcome f [] = Returns []"
| "map_outcome f (x # xs) =
     obind (f x) (\<lambda>y. obind (map_outcome f xs) (\<lambda>ys. Returns (y # ys)))"

definition parseChatMessage :: "jsv \<Rightarrow> jsv outcome" where
  "parseChatMessage data =
     obind (get_prop data ''id'') (\<lambda>mid.
     obind (get_prop data ''content'') (\<lambda>content.
     obind (cleanEmotes content) (\<lambda>cleaned.
     obind (get_prop data ''created_at'') (\<lambda>created_at.
     obind (get_prop data ''sender'') (\<lambda>sender.
     obind (get_prop sender ''id'') (\<lambda>sender_id.
     obind (get_prop sender ''username'') (\<lambda>username.
     obind (get_prop sender ''slug'') (\<lambda>slug.
     obind (get_prop sender ''identity'') (\<lambda>identity.
     obind (get_prop_opt identity ''color'') (\<lambda>color.
     obind (get_prop_opt identity ''badges'') (\<lambda>badges.
     obind (get_prop data ''chatroom'') (\<lambda>chatroom.
     obind (get_prop_opt chatroom ''id'') (\<lambda>chatroom_id.
       Returns (JObj
         [(''id'', mid),
          (''content'', cleaned),
          (''type'', JStr ''message''),
          (''created_at'', created_at),
          (''sender'', JObj
             [(''id'', sender_id),
              (''username'', username),
              (''slug'', slug),
              (''identity'', JObj
                 [(''color'', js_or color (JStr ''#ffffff'')),
                  (''badges'', js_or badges (JArr []))])]),
          (''chatroom'', JObj [(''id'', js_or chatroom_id (JNum 0))])]))))))))))))))"

definition parseMessageDeleted :: "jsv \<Rightarrow> jsv outcome" where
  "parseMessageDeleted data =
     obind (get_prop data ''message_id'') (\<lambda>message_id.
     obind (get_prop data ''chatroom_id'') (\<lambda>chatroom_id.
       Returns (JObj
         [(''message_id'', message_id),
          (''chatroom_id'', chatroom_id),
          (''type'', JStr ''message_deleted'')])))"

text \<open>
  \<^verbatim>\<open>data.a || data.b || "unknown"\<close>: the second property is read only when the first
  is falsy.
\<close>

definition parseUserBanned :: "jsv \<Rightarrow> jsv outcome" where
  "parseUserBanned data =
     obind (get_prop data ''username'') (\<lambda>username.
     obind (if truthy username then Returns username
            else obind (get_prop data ''banned_username'') (\<lambda>banned.
                   Returns (js_or banned (JStr ''unknown'')))) (\<lambda>name.
       Returns (JObj [(''username'', name), (''type'', JStr ''user_banned'')])))"

definition parseUserUnbanned :: "jsv \<Rightarrow> jsv outcome" where
  "parseUserUnbanned data =
     obind (get_prop data ''username'') (\<lambda>username.
     obind (if truthy username then Returns username
            else obind (get_prop data ''unbanned_username'') (\<lambda>unbanned.
                   Returns (js_or unbanned (JStr ''unknown'')))) (\<lambda>name.
       Returns (JObj [(''username'', name), (''type'', JStr ''user_unbanned'')])))"

definition parseSubscription :: "jsv \<Rightarrow> jsv outcome" where
  "parseSubscription data =
     obind (get_prop data ''username'') (\<lambda>username.
     obind (if truthy username then Returns username
            else obind (get_prop data ''user'') (\<lambda>user.
                 obind (get_prop_opt user ''username'') (\<lambda>nested.
                   Returns (js_or nested (JStr ''unknown''))))) (\<lambda>name.
       Returns (JObj [(''username'', name), (''type'', JStr ''subscription'')])))"

definition parseGiftedSubscriptions :: "jsv \<Rightarrow> jsv outcome" where
  "parseGiftedSubscriptions data =
     obind (get_prop data ''gifted_by'') (\<lambda>gifted_by.
     obind (if truthy gifted_by then Returns gifted_by
            else obind (get_prop data ''gifter'') (\<lambda>g.
                 obind (if typeof_object g then get_prop g ''username'' else Returns g) (\<lambda>x.
                   Returns (js_or x (JStr ''unknown''))))) (\<lambda>gifter.
     obind (get_prop data ''recipients'') (\<lambda>rs.
     obind (case rs of
              JArr xs \<Rightarrow>
                obind (map_outcome
                         (\<lambda>r. if typeof_string r then Returns r
                              else obind (get_prop r ''username'') (\<lambda>u.
                                     Returns (js_or u (JStr ''unknown'')))) xs)
                      (\<lambda>ys. Returns (JArr ys))
            | _ \<Rightarrow> Returns (JArr [])) (\<lambda>recipients.
       Returns (JObj
         [(''gifted_by'', gifter),
          (''recipients'', recipients),
          (''type'', JStr ''gifted_subscriptions'')])))))"

definition parsePinnedMessageCreated :: "jsv \<Rightarrow> jsv outcome" where
  "parsePinnedMessageCreated data =
     obind (get_prop data ''message'') (\<lambda>message.
     obind (parseChatMessage message) (\<lambda>parsed.
       Returns (JObj [(''message'', parsed), (''type'', JStr ''pinned_message_created'')])))"

text \<open>\<^verbatim>\<open>typeof v === "string" ? v : v?.username || "unknown"\<close>.\<close>

definition string_or_username :: "jsv \<Rightarrow> jsv outcome" where
  "string_or_username v =
     (if typeof_string v then Returns v
      else obind (get_prop_opt v ''username'') (\<lambda>u. Returns (js_or u (JStr ''unknown''))))"

definition parseStreamHost :: "jsv \<Rightarrow> jsv outcome" where
  "parseStreamHost data =
     obind (get_prop data ''hoster'') (\<lambda>h.
     obind (string_or_username h) (\<lambda>hoster.
     obind (get_prop data ''hosted_channel'') (\<lambda>c.
     obind (string_or_username c) (\<lambda>hostedChannel.
       Returns (JObj
         [(''hoster'', hoster),
          (''hosted_channel'', hostedChannel),
          (''type'', JStr ''stream_host'')])))))"

text \<open>
  \<^verbatim>\<open>(data.options || []).map(...)\<close>: a truthy value that is not an array has no
  \<^verbatim>\<open>map\<close> method, and the call throws.
\<close>

definition parsePollUpdate :: "jsv \<Rightarrow> jsv outcome" where
  "parsePollUpdate data =
     obind (get_prop data ''id'') (\<lambda>pid.
     obind (get_prop data ''question'') (\<lambda>question.
     obind (get_prop data ''options'') (\<lambda>os.
     obind (case js_or os (JArr []) of
              JArr xs \<Rightarrow>
                obind (map_outcome
                         (\<lambda>opt. obind (get_prop opt ''id'') (\<lambda>oid.
                                obind (get_prop opt ''text'') (\<lambda>text.
                                obind (get_prop opt ''votes'') (\<lambda>votes.
                                  Returns (JObj
                                    [(''id'', oid),
                                     (''text'', text),
                                     (''votes'', js_or votes (JNum 0))]))))) xs)
                      (\<lambda>ys. Returns (JArr ys))
            | _ \<Rightarrow> Throws ''TypeError'') (\<lambda>opts.
       Returns (JObj
         [(''poll_id'', pid),
          (''question'', question),
          (''options'', opts),
          (''type'', JStr ''poll_update'')])))))"

definition parsePollDelete :: "jsv \<Rightarrow> jsv outcome" where
  "parsePollDelete data =
     obind (get_prop data ''id'') (\<lambda>pid.
       Returns (JObj [(''poll_id'', pid), (''type'', JStr ''poll_delete'')]))"

subsection \<open>The envelope\<close>

text \<open>
  The upstream event names are \<^verbatim>\<open>App\Events\<Name>\<close>, with a backslash (code unit
  0x5C) after \<^verbatim>\<open>App\<close> and after \<^verbatim>\<open>Events\<close>.
\<close>

definition app_event :: "string \<Rightarrow> string" where
  "app_event name = ''App'' @ [CHR 0x5C] @ ''Events'' @ [CHR 0x5C] @ name"

text \<open>
  The test \<^verbatim>\<open>e.startsWith("pusher:") || e.startsWith("pusher_internal:")\<close> on a value
  that is not nullish.
\<close>

definition is_pusher_event :: "jsv \<Rightarrow> bool outcome" where
  "is_pusher_event e =
     obind (startsWith e ''pusher:'') (\<lambda>p.
       if p then Returns True else startsWith e ''pusher_internal:'')"

text \<open>
  The \<^verbatim>\<open>switch\<close> of \<^verbatim>\<open>parseMessage\<close>: the cases compare with \<^verbatim>\<open>===\<close>, so only a
  string can match; the default case returns null.
\<close>

definition parse_event :: "jsv \<Rightarrow> jsv \<Rightarrow> (string \<times> jsv) option outcome" where
  "parse_event event eventData =
     (if event = JStr (app_event ''ChatMessageEvent'') then
        obind (parseChatMessage eventData) (\<lambda>d. Returns (Some (''ChatMessage'', d)))
      else if event = JStr (app_event ''MessageDeletedEvent'') then
        obind (parseMessageDeleted eventData) (\<lambda>d. Returns (Some (''MessageDeleted'', d)))
      else if event = JStr (app_event ''UserBannedEvent'') then
        obind (parseUserBanned eventData) (\<lambda>d. Returns (Some (''UserBanned'', d)))
      else if event = JStr (app_event ''UserUnbannedEvent'') then
        obind (parseUserUnbanned eventData) (\<lambda>d. Returns (Some (''UserUnbanned'', d)))
      else if event = JStr (app_event ''SubscriptionEvent'') then
        obind (parseSubscription eventData) (\<lambda>d. Returns (Some (''Subscription'', d)))
      else if event = JStr (app_event ''GiftedSubscriptionsEvent'') then
        obind (parseGiftedSubscriptions eventData) (\<lambda>d. Returns (Some (''GiftedSubscriptions'', d)))
      else if event = JStr (app_event ''PinnedMessageCreatedEvent'') then
        obind (parsePinnedMessageCreated eventData) (\<lambda>d. Returns (Some (''PinnedMessageCreated'', d)))
      else if event = JStr (app_event ''StreamHostEvent'') then
        obind (parseStreamHost eventData) (\<lambda>d. Returns (Some (''StreamHost'', d)))
      else if event = JStr (app_event ''PollUpdateEvent'') then
        obind (parsePollUpdate eventData) (\<lambda>d. Returns (Some (''PollUpdate'', d)))
      else if event = JStr (app_event ''PollDeleteEvent'') then
        obind (parsePollDelete eventData) (\<lambda>d. Returns (Some (''PollDelete'', d)))
      else Returns None)"

text \<open>
  The body of the outer \<^verbatim>\<open>try\<close> of \<^verbatim>\<open>parseMessage\<close>. The result \<open>None\<close> is the
  \<^verbatim>\<open>null\<close> the function returns. \<^verbatim>\<open>message.data\<close> is read only when
  \<^verbatim>\<open>message.event\<close> is truthy. The inner \<^verbatim>\<open>try\<close> returns null on an undefined or empty
  data field and when \<^verbatim>\<open>JSON.parse\<close> throws.
\<close>

definition parseMessage_body :: "runtime \<Rightarrow> string \<Rightarrow> (string \<times> jsv) option outcome" where
  "parseMessage_body rt rawMessage =
     (if rawMessage = [] \<or> trim rawMessage = [] then Returns None
      else
        obind (JSON_parse rt rawMessage) (\<lambda>message.
        obind (get_prop message ''event'') (\<lambda>event.
        if \<not> truthy event then Returns None
        else
          obind (get_prop message ''data'') (\<lambda>data.
          if data = JUndefined then Returns None
          else
            obind (is_pusher_event event) (\<lambda>pusher.
            if pusher then Returns None
            else if event = JStr [] \<or> data = JStr [] then Returns None
            else
              (case try_catch
                      (if data = JUndefined \<or> data = JStr [] then Returns None
                       else obind (JSON_parse_value rt data) (\<lambda>v. Returns (Some v)))
                      (\<lambda>e. Returns None) of
                 Throws e \<Rightarrow> Throws e
               | Returns None \<Rightarrow> Returns None
               | Returns (Some eventData) \<Rightarrow> parse_event event eventData))))))"

text \<open>\<^verbatim>\<open>parseMessage\<close>: whatever the body throws is caught, and null is returned.\<close>

definition parseMessage :: "runtime \<Rightarrow> string \<Rightarrow> (string \<times> jsv) option outcome" where
  "parseMessage rt rawMessage = try_catch (parseMessage_body rt rawMessage) (\<lambda>error. Returns None)"

text \<open>\<^verbatim>\<open>extractEventType\<close>: the event name of the envelope, as it is, or null.\<close>

definition extractEventType_body :: "runtime \<Rightarrow> string \<Rightarrow> jsv option outcome" where
  "extractEventType_body rt rawMessage =
     (if rawMessage = [] \<or> trim rawMessage = [] then Returns None
      else
        obind (JSON_parse rt rawMessage) (\<lambda>message.
        obind (get_prop message ''event'') (\<lambda>event.
        if \<not> truthy event then Returns None
        else
          obind (is_pusher_event event) (\<lambda>pusher.
          if pusher then Returns None
          else if event = JStr [] then Returns None
          else Returns (Some event)))))"

definition extractEventType :: "runtime \<Rightarrow> string \<Rightarrow> jsv option outcome" where
  "extractEventType rt rawMessage =
     try_catch (extractEventType_body rt rawMessage) (\<lambda>error. Returns None)"

subsection \<open>Placeholders, as the specification describes them\<close>

text \<open>
  The text of a placeholder with the given id and name, and what makes it one the
  regular expression matches: a non-empty id of digits and a non-empty name of word
  characters.
\<close>

definition placeholder :: "string \<Rightarrow> string \<Rightarrow> string" where
  "placeholder ident name = ''[emote:'' @ ident @ '':'' @ name @ '']''"

definition emote_parts :: "string \<Rightarrow> string \<Rightarrow> bool" where
  "emote_parts ident name \<longleftrightarrow>
     ident \<noteq> [] \<and> list_all is_digit ident \<and> name \<noteq> [] \<and> list_all is_word name"

definition has_placeholder :: "string \<Rightarrow> bool" where
  "has_placeholder s \<longleftrightarrow>
     (\<exists>pre ident name post. emote_parts ident name \<and> s = pre @ placeholder ident name @ post)"

subsection \<open>The shapes of the payloads (types.ts)\<close>

text \<open>
  The interfaces \<^verbatim>\<open>Raw...Data\<close> as predicates on values. A property marked optional may
  be absent; an absent property reads as \<^verbatim>\<open>undefined\<close>.
\<close>

definition own :: "jsv \<Rightarrow> string \<Rightarrow> jsv" where
  "own v k = (case v of JObj props \<Rightarrow> (case map_of props k of None \<Rightarrow> JUndefined | Some x \<Rightarrow> x)
              | _ \<Rightarrow> JUndefined)"

fun is_object :: "jsv \<Rightarrow> bool" where
  "is_object (JObj props) = True"
| "is_object v = False"

fun is_number :: "jsv \<Rightarrow> bool" where
  "is_number (JNum n) = True"
| "is_number v = False"

fun is_array_of :: "(jsv \<Rightarrow> bool) \<Rightarrow> jsv \<Rightarrow> bool" where
  "is_array_of P (JArr xs) = list_all P xs"
| "is_array_of P v = False"

definition optional :: "(jsv \<Rightarrow> bool) \<Rightarrow> jsv \<Rightarrow> bool" where
  "optional P v \<longleftrightarrow> v = JUndefined \<or> P v"

definition has_username :: "jsv \<Rightarrow> bool" where
  "has_username v \<longleftrightarrow> is_object v \<and> typeof_string (own v ''username'')"

definition RawChatMessageData :: "jsv \<Rightarrow> bool" where
  "RawChatMessageData d \<longleftrightarrow>
     is_object d
   \<and> typeof_string (own d ''id'')
   \<and> typeof_string (own d ''content'')
   \<and> typeof_string (own d ''created_at'')
   \<and> is_object (own d ''sender'')
   \<and> is_number (own (own d ''sender'') ''id'')
   \<and> typeof_string (own (own d ''sender'') ''username'')
   \<and> typeof_string (own (own d ''sender'') ''slug'')
   \<and> optional (\<lambda>i. is_object i
                 \<and> optional typeof_string (own i ''color'')
                 \<and> optional (is_array_of typeof_string) (own i ''badges''))
        (own (own d ''sender'') ''identity'')
   \<and> optional (\<lambda>c. is_object c \<and> is_number (own c ''id'')) (own d ''chatroom'')"

definition RawMessageDeletedData :: "jsv \<Rightarrow> bool" where
  "RawMessageDeletedData d \<longleftrightarrow>
     is_object d \<and> typeof_string (own d ''message_id'') \<and> is_number (own d ''chatroom_id'')"

definition RawUserBannedData :: "jsv \<Rightarrow> bool" where
  "RawUserBannedData d \<longleftrightarrow>
     is_object d \<and> optional typeof_string (own d ''username'')
   \<and> optional typeof_string (own d ''banned_username'')"

definition RawUserUnbannedData :: "jsv \<Rightarrow> bool" where
  "RawUserUnbannedData d \<longleftrightarrow>
     is_object d \<and> optional typeof_string (own d ''username'')
   \<and> optional typeof_string (own d ''unbanned_username'')"

definition RawSubscriptionData :: "jsv \<Rightarrow> bool" where
  "RawSubscriptionData d \<longleftrightarrow>
     is_object d \<and> optional typeof_string (own d ''username'')
   \<and> optional has_username (own d ''user'')"

definition RawGiftedSubscriptionsData :: "jsv \<Rightarrow> bool" where
  "RawGiftedSubscriptionsData d \<longleftrightarrow>
     is_object d \<and> optional typeof_string (own d ''gifted_by'')
   \<and> optional has_username (own d ''gifter'')
   \<and> optional (is_array_of (\<lambda>r. typeof_string r \<or> has_username r)) (own d ''recipients'')"

definition RawPinnedMessageCreatedData :: "jsv \<Rightarrow> bool" where
  "RawPinnedMessageCreatedData d \<longleftrightarrow> is_object d \<and> RawChatMessageData (own d ''message'')"

definition RawStreamHostData :: "jsv \<Rightarrow> bool" where
  "RawStreamHostData d \<longleftrightarrow>
     is_object d
   \<and> optional (\<lambda>h. typeof_string h \<or> has_username h) (own d ''hoster'')
   \<and> optional (\<lambda>h. typeof_string h \<or> has_username h) (own d ''hosted_channel'')"

definition RawPollUpdateData :: "jsv \<Rightarrow> bool" where
  "RawPollUpdateData d \<longleftrightarrow>
     is_object d \<and> typeof_string (own d ''id'') \<and> typeof_string (own d ''question'')
   \<and> optional (is_array_of (\<lambda>opt. is_object opt \<and> typeof_string (own opt ''id'')
                                   \<and> typeof_string (own opt ''text'')
                                   \<and> optional is_number (own opt ''votes'')))
        (own d ''options'')"

definition RawPollDeleteData :: "jsv \<Rightarrow> bool" where
  "RawPollDeleteData d \<longleftrightarrow> is_object d \<and> typeof_string (own d ''id'')"

text \<open>The payload type that goes with each event kind (the casts in \<^verbatim>\<open>parseMessage\<close>).\<close>

definition well_formed_payload :: "string \<Rightarrow> jsv \<Rightarrow> bool" where
  "well_formed_payload kind d =
     (if kind = ''ChatMessage'' then RawChatMessageData d
      else if kind = ''MessageDeleted'' then RawMessageDeletedData d
      else if kind = ''UserBanned'' then RawUserBannedData d
      else if kind = ''UserUnbanned'' then RawUserUnbannedData d
      else if kind = ''Subscription'' then RawSubscriptionData d
      else if kind = ''GiftedSubscriptions'' then RawGiftedSubscriptionsData d
      else if kind = ''PinnedMessageCreated'' then RawPinnedMessageCreatedData d
      else if kind = ''StreamHost'' then RawStreamHostData d
      else if kind = ''PollUpdate'' then RawPollUpdateData d
      else if kind = ''PollDelete'' then RawPollDeleteData d
      else False)"

section \<open>Event dispatcher (EventEmitter.ts)\<close>

text \<open>
  Listeners are compared by identity. A function handed in by the caller is identified by
  a number; every call of \<^verbatim>\<open>once\<close> allocates a new closure \<^verbatim>\<open>onceWrapper\<close>, identified by
  its allocation number together with the event and the listener it closes over.
\<close>

datatype listener = Fn nat | OnceWrapper nat string nat

text \<open>
  The registry \<^verbatim>\<open>Map<string, Set<Function>>\<close>: both the map and its sets iterate in
  insertion order, so both are lists. \<open>closures\<close> counts the wrappers allocated so far and
  \<open>world\<close> is everything else a callback can read and write.
\<close>

record 'w emitter =
  events :: "(string \<times> listener list) list"
  closures :: nat
  world :: 'w

definition new_emitter :: "'w \<Rightarrow> 'w emitter" where
  "new_emitter w = \<lparr>events = [], closures = 0, world = w\<rparr>"

text \<open>
  A callback receives the published arguments and runs on the whole state, the registry
  included: it may subscribe, unsubscribe and publish while a dispatch is under way.
\<close>

type_synonym ('a, 'w) handlers = "nat \<Rightarrow> 'a \<Rightarrow> 'w emitter \<Rightarrow> unit outcome \<times> 'w emitter"

text \<open>\<^verbatim>\<open>Set.prototype.add\<close>: an element already in the set is not added again.\<close>

definition set_add :: "'a \<Rightarrow> 'a list \<Rightarrow> 'a list" where
  "set_add x xs = (if x \<in> set xs then xs else xs @ [x])"

definition on :: "string \<Rightarrow> listener \<Rightarrow> 'w emitter \<Rightarrow> 'w emitter" where
  "on event l s =
     (let evs = (if map_of (events s) event = None
                 then AList.update event [] (events s) else events s);
          listeners = (case map_of evs event of None \<Rightarrow> [] | Some ls \<Rightarrow> ls)
      in s\<lparr>events := AList.update event (set_add l listeners) evs\<rparr>)"

definition off :: "string \<Rightarrow> listener \<Rightarrow> 'w emitter \<Rightarrow> 'w emitter" where
  "off event l s =
     (case map_of (events s) event of
        None \<Rightarrow> s
      | Some listeners \<Rightarrow>
          (let ls = remove1 l listeners
           in if length ls = 0 then s\<lparr>events := AList.delete event (events s)\<rparr>
              else s\<lparr>events := AList.update event ls (events s)\<rparr>))"

text \<open>
  \<^verbatim>\<open>once\<close> registers the fresh wrapper; the wrapper, when called, first removes itself
  from the event and then calls the listener.
\<close>

definition once :: "string \<Rightarrow> nat \<Rightarrow> 'w emitter \<Rightarrow> 'w emitter" where
  "once event f s =
     on event (OnceWrapper (closures s) event f) (s\<lparr>closures := Suc (closures s)\<rparr>)"

fun invoke :: "('a, 'w) handlers \<Rightarrow> listener \<Rightarrow> 'a \<Rightarrow> 'w emitter \<Rightarrow> unit outcome \<times> 'w emitter" where
  "invoke h (Fn f) args s = h f args s"
| "invoke h (OnceWrapper n event f) args s = h f args (off event (OnceWrapper n event f) s)"

definition removeAllListeners :: "string option \<Rightarrow> 'w emitter \<Rightarrow> 'w emitter" where
  "removeAllListeners event s =
     (case event of
        Some e \<Rightarrow> if e \<noteq> [] then s\<lparr>events := AList.delete e (events s)\<rparr> else s\<lparr>events := []\<rparr>
      | None \<Rightarrow> s\<lparr>events := []\<rparr>)"

definition listenerCount :: "string \<Rightarrow> 'w emitter \<Rightarrow> nat" where
  "listenerCount event s = (case map_of (events s) event of None \<Rightarrow> 0 | Some ls \<Rightarrow> length ls)"

definition eventNames :: "'w emitter \<Rightarrow> string list" where
  "eventNames s = map fst (events s)"

text \<open>
  The loop of \<^verbatim>\<open>emit\<close> over the copied array. Each call sits in its own
  \<^verbatim>\<open>try/catch\<close>: whether the listener returns or throws, the loop goes on with the state
  the listener left. The first component lists the calls made, each with its outcome (the
  thrown ones are those written to \<^verbatim>\<open>console.error\<close>).
\<close>

fun call_listeners ::
  "('a, 'w) handlers \<Rightarrow> listener list \<Rightarrow> 'a \<Rightarrow> 'w emitter
     \<Rightarrow> (listener \<times> unit outcome) list \<times> 'w emitter" where
  "call_listeners h [] args s = ([], s)"
| "call_listeners h (l # ls) args s =
     (case invoke h l args s of
        (r, s1) \<Rightarrow>
          (case call_listeners h ls args s1 of (calls, s2) \<Rightarrow> ((l, r) # calls, s2)))"

text \<open>
  \<^verbatim>\<open>emit\<close>: no set or an empty set returns false; otherwise the set is copied
  (\<^verbatim>\<open>Array.from\<close>), every listener of the copy is called, and the result is true.
\<close>

definition emit ::
  "('a, 'w) handlers \<Rightarrow> string \<Rightarrow> 'a \<Rightarrow> 'w emitter
     \<Rightarrow> bool outcome \<times> (listener \<times> unit outcome) list \<times> 'w emitter" where
  "emit h event args s =
     (case map_of (events s) event of
        None \<Rightarrow> (Returns False, [], s)
      | Some listeners \<Rightarrow>
          if length listeners = 0 then (Returns False, [], s)
          else (let listenersArray = listeners
                in case call_listeners h listenersArray args s of
                     (calls, s') \<Rightarrow> (Returns True, calls, s')))"

text \<open>The subscribers of an event at a given moment, in the order the set iterates.\<close>

definition subscribers :: "string \<Rightarrow> 'w emitter \<Rightarrow> listener list" where
  "subscribers event s = (case map_of (events s) event of None \<Rightarrow> [] | Some ls \<Rightarrow> ls)"

subsection \<open>Callbacks used in the examples\<close>

text \<open>
  Two callbacks for the examples: number 0 throws, every other one appends its own number
  to the world, which is the list of the callbacks that ran.
\<close>

definition throwing_handlers :: "(unit, nat list) handlers" where
  "throwing_handlers f args s =
     (if f = 0 then (Throws ''boom'', s) else (Returns (), s\<lparr>world := world s @ [f]\<rparr>))"

definition logging_handlers :: "(unit, nat list) handlers" where
  "logging_handlers f args s = (Returns (), s\<lparr>world := world s @ [f]\<rparr>)"

text \<open>
  Callback 0 unsubscribes itself and publishes the event again from inside the dispatch;
  every other callback appends its number to the world.
\<close>

definition republishing_handlers :: "(unit, nat list) handlers" where
  "republishing_handlers f args s =
     (if f = 0
      then (case emit logging_handlers ''e'' args (off ''e'' (Fn 0) (s\<lparr>world := world s @ [0]\<rparr>)) of
              (r, calls, s') \<Rightarrow> (Returns (), s'))
      else logging_handlers f args s)"

text \<open>Callbacks that never subscribe or unsubscribe: they leave the registry as it is.\<close>

definition leaves_registry :: "('a, 'w) handlers \<Rightarrow> bool" where
  "leaves_registry h \<longleftrightarrow> (\<forall>f args s. events (snd (h f args s)) = events s)"

section \<open>Options and the frame buffer (WebSocketManager.ts)\<close>

text \<open>
  The options object of \<^verbatim>\<open>WebSocketManager\<close> (\<^verbatim>\<open>Required<KickWebSocketOptions>\<close>).
  JavaScript numbers that the code only compares or passes on are integers here.
\<close>

record options =
  debug :: bool
  autoReconnect :: bool
  reconnectInterval :: int
  enableBuffer :: bool
  bufferSize :: int
  filteredEvents :: "string list"

text \<open>The defaults the constructor merges the caller's options into.\<close>

definition default_options :: options where
  "default_options =
     \<lparr>debug = False, autoReconnect = True, reconnectInterval = 5000,
      enableBuffer = False, bufferSize = 1000, filteredEvents = []\<rparr>"

text \<open>
  \<^verbatim>\<open>addToBuffer\<close>: push the frame, then shift one entry off the head when the
  length exceeds \<^verbatim>\<open>options.bufferSize\<close>. The buffer is the list, oldest first.
\<close>

definition addToBuffer :: "options \<Rightarrow> string \<Rightarrow> string list \<Rightarrow> string list" where
  "addToBuffer opts message buf =
     (let pushed = buf @ [message]
      in if int (length pushed) > bufferSize opts then tl pushed else pushed)"

text \<open>
  \<^verbatim>\<open>Array.prototype.slice(start, end)\<close> on integer arguments: a negative index counts
  from the end, both ends are clamped to the array, an absent end is the length.
\<close>

definition js_slice :: "'a list \<Rightarrow> int \<Rightarrow> int option \<Rightarrow> 'a list" where
  "js_slice xs start end =
     (let len = int (length xs);
          k = (if start < 0 then max (len + start) 0 else min start len);
          relEnd = (case end of None \<Rightarrow> len | Some e \<Rightarrow> e);
          fin = (if relEnd < 0 then max (len + relEnd) 0 else min relEnd len)
      in take (nat (fin - k)) (drop (nat k) xs))"

text \<open>
  \<^verbatim>\<open>exportRawMessagesInRange(startIndex, endIndex?)\<close>: the conditional tests the
  truthiness of \<^verbatim>\<open>endIndex\<close>, so \<^verbatim>\<open>undefined\<close> and \<^verbatim>\<open>0\<close> both take the
  one-argument slice.
\<close>

definition exportRawMessagesInRange :: "string list \<Rightarrow> int \<Rightarrow> int option \<Rightarrow> string list" where
  "exportRawMessagesInRange messageBuffer startIndex endIndex =
     (case endIndex of
        None \<Rightarrow> js_slice messageBuffer startIndex None
      | Some e \<Rightarrow> if e \<noteq> 0 then js_slice messageBuffer startIndex (Some e)
                  else js_slice messageBuffer startIndex None)"

section \<open>Connection controller (WebSocketManager.ts)\<close>

datatype ConnectionState = Disconnected | Connecting | Connected | Reconnecting | Error

text \<open>The \<^verbatim>\<open>readyState\<close> of a socket.\<close>

datatype ready_state = CONNECTING | OPEN | CLOSING | CLOSED

text \<open>
  \<^verbatim>\<open>performConnection\<close> is awaited by \<^verbatim>\<open>connect\<close>, which handles its failure, or started by
  the reconnect timer, which only logs it.
\<close>

datatype caller = ByConnect | ByTimer

text \<open>
  What the controller does to the outside, in the order it does it: publishes to its
  subscribers, requests to the channel lookup, operations on sockets and timers
  (\<open>Send sid room\<close> is the subscribe frame for \<^verbatim>\<open>chatrooms.<room>.v2\<close> sent on socket
  \<open>sid\<close>). The append to the buffer is recorded as well, so that its place in the order
  can be stated.
\<close>

datatype action =
    Emit string jsv
  | Buffered string
  | Fetch string
  | NewWebSocket nat
  | Send nat int
  | Close nat int string
  | SetTimeout nat int
  | ClearTimeout nat
  | Uncaught string

text \<open>
  The fields of the class, followed by the part of the environment the controller has
  created: the sockets (a socket is its index in the list), the pending timers with their
  delays, the \<^verbatim>\<open>performConnection\<close> calls suspended at \<^verbatim>\<open>await getChannelInfo\<close>, and the
  record of actions.
\<close>

record manager =
  ws :: "nat option"
  channelName :: string
  channelId :: int
  connectionState :: ConnectionState
  options :: options
  reconnectTimer :: "nat option"
  messageBuffer :: "string list"
  isManualDisconnect :: bool
  sockets :: "ready_state list"
  timers :: "(nat \<times> int) list"
  next_timer :: nat
  awaiting :: "caller list"
  trace :: "action list"

definition new_manager :: "options \<Rightarrow> manager" where
  "new_manager opts =
     \<lparr>ws = None, channelName = [], channelId = 0, connectionState = Disconnected,
      options = opts, reconnectTimer = None, messageBuffer = [], isManualDisconnect = False,
      sockets = [], timers = [], next_timer = 1, awaiting = [], trace = []\<rparr>"

definition act :: "action \<Rightarrow> manager \<Rightarrow> manager" where
  "act a s = s\<lparr>trace := trace s @ [a]\<rparr>"

text \<open>
  \<^verbatim>\<open>this.emit\<close> as seen from the controller: the publish is recorded; what the
  subscribers do is their own business.
\<close>

definition emit_event :: "string \<Rightarrow> jsv \<Rightarrow> manager \<Rightarrow> manager" where
  "emit_event event payload s = act (Emit event payload) s"

definition setConnectionState :: "ConnectionState \<Rightarrow> manager \<Rightarrow> manager" where
  "setConnectionState state s = s\<lparr>connectionState := state\<rparr>"

subsection \<open>The message pipeline\<close>

text \<open>
  The table of \<^verbatim>\<open>isEventFiltered\<close>. It is an object literal, so a lookup also finds the
  properties of \<^verbatim>\<open>Object.prototype\<close>, whose values are truthy and are no event kinds.
\<close>

definition eventTypeMap :: "(string \<times> string) list" where
  "eventTypeMap =
     [(app_event ''ChatMessageEvent'', ''ChatMessage''),
      (app_event ''MessageDeletedEvent'', ''MessageDeleted''),
      (app_event ''UserBannedEvent'', ''UserBanned''),
      (app_event ''UserUnbannedEvent'', ''UserUnbanned''),
      (app_event ''SubscriptionEvent'', ''Subscription''),
      (app_event ''GiftedSubscriptionsEvent'', ''GiftedSubscriptions''),
      (app_event ''PinnedMessageCreatedEvent'', ''PinnedMessageCreated''),
      (app_event ''StreamHostEvent'', ''StreamHost''),
      (app_event ''PollUpdateEvent'', ''PollUpdate''),
      (app_event ''PollDeleteEvent'', ''PollDelete'')]"

definition object_prototype_keys :: "string list" where
  "object_prototype_keys =
     [''constructor'', ''hasOwnProperty'', ''isPrototypeOf'', ''propertyIsEnumerable'',
      ''toLocaleString'', ''toString'', ''valueOf'', ''__proto__'',
      ''__defineGetter__'', ''__defineSetter__'', ''__lookupGetter__'', ''__lookupSetter__'']"

definition isEventFiltered :: "options \<Rightarrow> string \<Rightarrow> bool" where
  "isEventFiltered opts eventType =
     (if length (filteredEvents opts) = 0 then False
      else case map_of eventTypeMap eventType of
             Some standardEventType \<Rightarrow> standardEventType \<notin> set (filteredEvents opts)
           | None \<Rightarrow> eventType \<in> set object_prototype_keys)"

text \<open>\<^verbatim>\<open>e?.startsWith(p)\<close>: \<^verbatim>\<open>undefined\<close>, which is falsy, on a nullish value.\<close>

fun startsWith_opt :: "jsv \<Rightarrow> string \<Rightarrow> bool outcome" where
  "startsWith_opt JUndefined p = Returns False"
| "startsWith_opt JNull p = Returns False"
| "startsWith_opt v p = startsWith v p"

text \<open>
  The first \<^verbatim>\<open>try\<close> of \<^verbatim>\<open>handleMessage\<close>: true when the frame is a Pusher system event,
  in which case the function returns.
\<close>

definition is_system_frame :: "runtime \<Rightarrow> string \<Rightarrow> bool outcome" where
  "is_system_frame rt rawMessage =
     obind (JSON_parse rt rawMessage) (\<lambda>message.
     obind (get_prop message ''event'') (\<lambda>event.
     obind (startsWith_opt event ''pusher:'') (\<lambda>p.
       if p then Returns True else startsWith_opt event ''pusher_internal:'')))"

definition handleMessage :: "runtime \<Rightarrow> string \<Rightarrow> manager \<Rightarrow> manager" where
  "handleMessage rt rawMessage s =
     (let s1 = emit_event ''rawMessage'' (JStr rawMessage) s;
          s2 = (if enableBuffer (options s1)
                then act (Buffered rawMessage)
                       (s1\<lparr>messageBuffer := addToBuffer (options s1) rawMessage (messageBuffer s1)\<rparr>)
                else s1)
      in if try_catch (is_system_frame rt rawMessage) (\<lambda>e. Returns False) = Returns True then s2
         else
           (case extractEventType rt rawMessage of
              Returns (Some (JStr eventType)) \<Rightarrow>
                if eventType \<noteq> [] \<and> isEventFiltered (options s2) eventType then s2
                else (case parseMessage rt rawMessage of
                        Returns (Some (type, data)) \<Rightarrow> emit_event type data s2
                      | _ \<Rightarrow> s2)
            | _ \<Rightarrow>
                (case parseMessage rt rawMessage of
                   Returns (Some (type, data)) \<Rightarrow> emit_event type data s2
                 | _ \<Rightarrow> s2)))"

subsection \<open>Connecting, reconnecting, disconnecting\<close>

definition setTimeout :: "int \<Rightarrow> manager \<Rightarrow> nat \<times> manager" where
  "setTimeout delay s =
     (next_timer s,
      act (SetTimeout (next_timer s) delay)
        (s\<lparr>timers := timers s @ [(next_timer s, delay)], next_timer := Suc (next_timer s)\<rparr>))"

definition clearTimeout :: "nat \<Rightarrow> manager \<Rightarrow> manager" where
  "clearTimeout t s = act (ClearTimeout t) (s\<lparr>timers := filter (\<lambda>(t', d). t' \<noteq> t) (timers s)\<rparr>)"

text \<open>
  \<^verbatim>\<open>performConnection\<close> up to its \<^verbatim>\<open>await\<close>: the state becomes \<^verbatim>\<open>connecting\<close> and the
  channel lookup is requested.
\<close>

definition performConnection :: "caller \<Rightarrow> manager \<Rightarrow> manager" where
  "performConnection by s =
     (let s1 = setConnectionState Connecting s
      in act (Fetch (channelName s1)) (s1\<lparr>awaiting := awaiting s1 @ [by]\<rparr>))"

text \<open>
  \<^verbatim>\<open>performConnection\<close> after the lookup has answered: the room id is stored and a new
  socket is created, with the four handlers of \<^verbatim>\<open>setupWebSocketHandlers\<close> on it.
\<close>

definition performConnection_resolved :: "int \<Rightarrow> manager \<Rightarrow> manager" where
  "performConnection_resolved room s =
     act (NewWebSocket (length (sockets s)))
       (s\<lparr>channelId := room, ws := Some (length (sockets s)), sockets := sockets s @ [CONNECTING]\<rparr>)"

definition scheduleReconnect :: "manager \<Rightarrow> manager" where
  "scheduleReconnect s =
     (let s1 = (case reconnectTimer s of Some t \<Rightarrow> clearTimeout t s | None \<Rightarrow> s);
          s2 = setConnectionState Reconnecting s1
      in case setTimeout (reconnectInterval (options s2)) s2 of
           (t, s3) \<Rightarrow> s3\<lparr>reconnectTimer := Some t\<rparr>)"

definition handleDisconnect :: "int \<Rightarrow> string \<Rightarrow> manager \<Rightarrow> manager" where
  "handleDisconnect code reason s =
     (let s1 = setConnectionState Disconnected s;
          s2 = emit_event ''disconnect'' (JObj [(''code'', JNum code), (''reason'', JStr reason)]) s1
      in if autoReconnect (options s2) \<and> \<not> isManualDisconnect s2 then scheduleReconnect s2 else s2)"

definition handleConnectionError :: "string \<Rightarrow> manager \<Rightarrow> manager" where
  "handleConnectionError error s =
     (let s1 = setConnectionState Error s;
          s2 = emit_event ''error'' (JStr error) s1
      in if autoReconnect (options s2) \<and> \<not> isManualDisconnect s2 then scheduleReconnect s2 else s2)"

text \<open>
  \<^verbatim>\<open>connect\<close> up to the \<^verbatim>\<open>await\<close>: a no-op when already connected or connecting.
\<close>

definition connect :: "string \<Rightarrow> manager \<Rightarrow> manager" where
  "connect name s =
     (if connectionState s = Connected \<or> connectionState s = Connecting then s
      else performConnection ByConnect (s\<lparr>channelName := name, isManualDisconnect := False\<rparr>))"

text \<open>
  The lookup has failed. In \<^verbatim>\<open>connect\<close> the \<^verbatim>\<open>catch\<close> calls \<^verbatim>\<open>handleConnectionError\<close>
  and throws again; in the timer callback the \<^verbatim>\<open>catch\<close> only logs.
\<close>

definition performConnection_rejected :: "caller \<Rightarrow> string \<Rightarrow> manager \<Rightarrow> manager" where
  "performConnection_rejected by error s =
     (case by of ByConnect \<Rightarrow> handleConnectionError error s | ByTimer \<Rightarrow> s)"

text \<open>\<^verbatim>\<open>ws.close(code, reason)\<close>: a socket that is connecting or open starts closing.\<close>

definition close_socket :: "nat \<Rightarrow> int \<Rightarrow> string \<Rightarrow> manager \<Rightarrow> manager" where
  "close_socket sid code reason s =
     act (Close sid code reason)
       (s\<lparr>sockets := (if sid < length (sockets s) \<and> sockets s ! sid \<in> {CONNECTING, OPEN}
                       then (sockets s)[sid := CLOSING] else sockets s)\<rparr>)"

definition disconnect :: "manager \<Rightarrow> manager" where
  "disconnect s =
     (let s1 = s\<lparr>isManualDisconnect := True\<rparr>;
          s2 = (case reconnectTimer s1 of
                  Some t \<Rightarrow> (clearTimeout t s1)\<lparr>reconnectTimer := None\<rparr>
                | None \<Rightarrow> s1);
          s3 = (case ws s2 of
                  Some sid \<Rightarrow> (close_socket sid 1000 ''Manual disconnect'' s2)\<lparr>ws := None\<rparr>
                | None \<Rightarrow> s2)
      in setConnectionState Disconnected s3)"

text \<open>
  \<^verbatim>\<open>subscribeToChannel\<close>, the \<^verbatim>\<open>onopen\<close> handler. It sends on the current \<^verbatim>\<open>this.ws\<close>;
  \<^verbatim>\<open>send\<close> on a socket that is still connecting throws, which ends the handler.
\<close>

definition subscribeToChannel :: "manager \<Rightarrow> manager" where
  "subscribeToChannel s =
     (case ws s of
        None \<Rightarrow> s
      | Some cur \<Rightarrow>
          if cur < length (sockets s) \<and> sockets s ! cur = CONNECTING
          then act (Uncaught ''InvalidStateError'') s
          else (let s1 = act (Send cur (channelId s)) s;
                    s2 = setConnectionState Connected s1
                in emit_event ''ready'' (JObj [(''channel'', JStr (channelName s2))]) s2))"

text \<open>
  What can happen to a controller: a call of its interface, or a callback from the
  environment on a socket it created, a timer it armed or a lookup it awaits.
\<close>

datatype event =
    CallConnect string
  | CallDisconnect
  | LookupResolved nat int
  | LookupRejected nat string
  | OnOpen nat
  | OnMessage nat string
  | OnClose nat int string
  | OnError nat string
  | TimerFired nat

text \<open>
  One event. The result is \<open>None\<close> when the environment cannot deliver the event in this
  state: a lookup that is not awaited, a timer that is not pending, an open on a socket
  that is not connecting, a message on a socket that is neither open nor closing,
  anything on a closed socket.
\<close>

definition step :: "runtime \<Rightarrow> event \<Rightarrow> manager \<Rightarrow> manager option" where
  "step rt ev s =
     (case ev of
        CallConnect name \<Rightarrow> Some (connect name s)
      | CallDisconnect \<Rightarrow> Some (disconnect s)
      | LookupResolved i room \<Rightarrow>
          if i < length (awaiting s)
          then Some (performConnection_resolved room
                       (s\<lparr>awaiting := take i (awaiting s) @ drop (Suc i) (awaiting s)\<rparr>))
          else None
      | LookupRejected i error \<Rightarrow>
          if i < length (awaiting s)
          then Some (performConnection_rejected (awaiting s ! i) error
                       (s\<lparr>awaiting := take i (awaiting s) @ drop (Suc i) (awaiting s)\<rparr>))
          else None
      | OnOpen sid \<Rightarrow>
          if sid < length (sockets s) \<and> sockets s ! sid = CONNECTING
          then Some (subscribeToChannel (s\<lparr>sockets := (sockets s)[sid := OPEN]\<rparr>))
          else None
      | OnMessage sid raw \<Rightarrow>
          if sid < length (sockets s) \<and> sockets s ! sid \<in> {OPEN, CLOSING}
          then Some (handleMessage rt raw s)
          else None
      | OnClose sid code reason \<Rightarrow>
          if sid < length (sockets s) \<and> sockets s ! sid \<noteq> CLOSED
          then Some (handleDisconnect code reason (s\<lparr>sockets := (sockets s)[sid := CLOSED]\<rparr>))
          else None
      | OnError sid error \<Rightarrow>
          if sid < length (sockets s) \<and> sockets s ! sid \<noteq> CLOSED
          then Some (emit_event ''error'' (JStr error) s)
          else None
      | TimerFired t \<Rightarrow>
          if t \<in> fst ` set (timers s)
          then Some (performConnection ByTimer
                       (s\<lparr>timers := filter (\<lambda>(t', d). t' \<noteq> t) (timers s)\<rparr>))
          else None)"

fun run :: "runtime \<Rightarrow> event list \<Rightarrow> manager \<Rightarrow> manager option" where
  "run rt [] s = Some s"
| "run rt (ev # evs) s = (case step rt ev s of None \<Rightarrow> None | Some s' \<Rightarrow> run rt evs s')"

text \<open>
  The actions that start a connection attempt or arm the reconnect timer.
\<close>

fun starts_attempt :: "action \<Rightarrow> bool" where
  "starts_attempt (SetTimeout t d) = True"
| "starts_attempt (Fetch name) = True"
| "starts_attempt a = False"



text \<open>Every pending timer is the one \<^verbatim>\<open>reconnectTimer\<close> refers to.\<close>

definition timers_tracked :: "manager \<Rightarrow> bool" where
  "timers_tracked s \<longleftrightarrow> (\<forall>(t, d) \<in> set (timers s). reconnectTimer s = Some t)"

text \<open>What an observer sees of a controller: its state, what is pending, and its actions.\<close>

definition observe ::
  "manager \<Rightarrow> ConnectionState \<times> (nat \<times> int) list \<times> caller list \<times> ready_state list \<times> action list" where
  "observe s = (connectionState s, timers s, awaiting s, sockets s, trace s)"





section \<open>Frames used in the examples\<close>

text \<open>
  A frame as it arrives on the socket: the envelope with the event name and the data
  field, which holds the text of the payload, itself JSON, as a JSON string.
\<close>

definition json_escape :: "string \<Rightarrow> string" where
  "json_escape s =
     concat (map (\<lambda>c. if c = CHR 0x22 \<or> c = CHR 0x5C then [CHR 0x5C, c] else [c]) s)"

definition frame :: "string \<Rightarrow> string \<Rightarrow> string" where
  \<open>frame event payload =
     ''{"event":"'' @ json_escape event @ ''","data":"'' @ json_escape payload @ ''"}''\<close>

definition ban_payload :: string where
  \<open>ban_payload = ''{"username":"bob"}''\<close>

definition ban_frame :: string where
  "ban_frame = frame (app_event ''UserBannedEvent'') ban_payload"

definition chat_payload :: string where
  \<open>chat_payload =
     ''{"id":"m1","content":"Hi [emote:1:Kappa] there [emote:2:Pog]","created_at":"t",''
     @ ''"sender":{"id":7,"username":"testuser","slug":"testuser"}}''\<close>

definition chat_frame :: string where
  "chat_frame = frame (app_event ''ChatMessageEvent'') chat_payload"

text \<open>The value of the chat payload.\<close>

definition chat_object :: jsv where
  "chat_object =
     JObj [(''id'', JStr ''m1''),
           (''content'', JStr ''Hi [emote:1:Kappa] there [emote:2:Pog]''),
           (''created_at'', JStr ''t''),
           (''sender'', JObj [(''id'', JNum 7), (''username'', JStr ''testuser''),
                              (''slug'', JStr ''testuser'')])]"

text \<open>
  A system frame of the transport, a frame with an event name that is not in the table,
  a frame without data field, a frame with empty event and data, and a frame whose data
  field is not JSON.
\<close>

definition system_frame :: string where
  "system_frame = frame ''pusher_internal:subscription_succeeded'' ''{}''"

definition unknown_frame :: string where
  "unknown_frame = frame (app_event ''FollowersUpdated'') ''{}''"

definition no_data_frame :: string where
  \<open>no_data_frame = ''{"event":"test"}''\<close>

definition empty_frame :: string where
  "empty_frame = frame [] []"

definition bad_data_frame :: string where
  "bad_data_frame = frame (app_event ''UserBannedEvent'') ''not json''"

text \<open>
  A runtime whose \<^verbatim>\<open>JSON.parse\<close> knows these texts and throws on every other one.
\<close>

definition example_texts :: "(string \<times> jsv) list" where
  "example_texts =
     [(ban_frame, JObj [(''event'', JStr (app_event ''UserBannedEvent'')),
                        (''data'', JStr ban_payload)]),
      (ban_payload, JObj [(''username'', JStr ''bob'')]),
      (chat_frame, JObj [(''event'', JStr (app_event ''ChatMessageEvent'')),
                         (''data'', JStr chat_payload)]),
      (chat_payload, chat_object),
      (system_frame, JObj [(''event'', JStr ''pusher_internal:subscription_succeeded''),
                           (''data'', JStr ''{}'')]),
      (unknown_frame, JObj [(''event'', JStr (app_event ''FollowersUpdated'')),
                            (''data'', JStr ''{}'')]),
      (no_data_frame, JObj [(''event'', JStr ''test'')]),
      (empty_frame, JObj [(''event'', JStr []), (''data'', JStr [])]),
      (bad_data_frame, JObj [(''event'', JStr (app_event ''UserBannedEvent'')),
                             (''data'', JStr ''not json'')]),
      (''{}'', JObj [])]"

definition example_runtime :: runtime where
  "example_runtime =
     \<lparr>JSON_parse = (\<lambda>s. case map_of example_texts s of
                          Some v \<Rightarrow> Returns v
                        | None \<Rightarrow> Throws ''SyntaxError''),
      ToString = (\<lambda>v. ''[object Object]'')\<rparr>"


section \<open>Dispatch\<close>

lemma distinct_count_list_1: "distinct xs \<Longrightarrow> x \<in> set xs \<Longrightarrow> count_list xs x = 1"
  by (induction xs) auto

lemma call_listeners_calls: "map fst (fst (call_listeners h ls args s)) = ls"
proof (induction ls arbitrary: s)
  case Nil
  show ?case by simp
next
  case (Cons l ls)
  obtain r s1 where i: "invoke h l args s = (r, s1)" by (cases "invoke h l args s")
  obtain calls s2 where c: "call_listeners h ls args s1 = (calls, s2)"
    by (cases "call_listeners h ls args s1")
  from Cons [of s1] c have "map fst calls = ls" by simp
  with i c show ?case by simp
qed

lemma call_listeners_outcome_hd:
  "call_listeners h (l # ls) args s =
     ((l, fst (invoke h l args s)) # fst (call_listeners h ls args (snd (invoke h l args s))),
      snd (call_listeners h ls args (snd (invoke h l args s))))"
  by (simp split: prod.splits)

lemma emit_unfold:
  "emit h event args s =
     (Returns (subscribers event s \<noteq> []),
      (if subscribers event s = [] then ([], s) else call_listeners h (subscribers event s) args s))"
  by (auto simp: emit_def subscribers_def split: option.splits prod.splits)

lemma listenerCount_subscribers: "listenerCount event s = length (subscribers event s)"
  by (simp add: listenerCount_def subscribers_def split: option.splits)

lemma subscribers_on:
  "subscribers event (on event l s) = set_add l (subscribers event s)"
  by (cases "map_of (events s) event") (simp_all add: on_def subscribers_def Let_def update_conv')

lemma subscribers_new [simp]: "subscribers event (new_emitter w) = []"
  by (simp add: subscribers_def new_emitter_def)

lemma invoke_case:
  "invoke h l args t =
     (case l of Fn f \<Rightarrow> h f args t
      | OnceWrapper n e f \<Rightarrow> h f args (off e (OnceWrapper n e f) t))"
  by (cases l) simp_all

lemma call_listeners_states:
  "\<exists>states. length states = Suc (length ls) \<and> states ! 0 = s
      \<and> last states = snd (call_listeners h ls args s)
      \<and> (\<forall>i < length ls.
            invoke h (ls ! i) args (states ! i)
              = (snd (fst (call_listeners h ls args s) ! i), states ! Suc i))"
proof (induction ls arbitrary: s)
  case Nil
  show ?case by (rule exI [of _ "[s]"]) simp
next
  case (Cons l ls)
  let ?r = "fst (invoke h l args s)" and ?s1 = "snd (invoke h l args s)"
  from Cons [of ?s1] obtain states where
    st: "length states = Suc (length ls)" "states ! 0 = ?s1"
        "last states = snd (call_listeners h ls args ?s1)"
        "\<forall>i < length ls. invoke h (ls ! i) args (states ! i)
              = (snd (fst (call_listeners h ls args ?s1) ! i), states ! Suc i)"
    by blast
  from st(1) have ne: "states \<noteq> []" by auto
  have c: "fst (call_listeners h (l # ls) args s) = (l, ?r) # fst (call_listeners h ls args ?s1)"
          "snd (call_listeners h (l # ls) args s) = snd (call_listeners h ls args ?s1)"
    by (simp_all split: prod.splits)
  have "invoke h ((l # ls) ! i) args ((s # states) ! i)
          = (snd (fst (call_listeners h (l # ls) args s) ! i), (s # states) ! Suc i)"
    if "i < length (l # ls)" for i
  proof (cases i)
    case 0
    then show ?thesis unfolding c using st(2) by simp
  next
    case (Suc j)
    with that have "j < length ls" by simp
    with st(4) Suc show ?thesis unfolding c by simp
  qed
  then show ?case
    using st(1,3) ne unfolding c
    by (intro exI [of _ "s # states"]) simp
qed

text \<open>
  C6. A publish returns (it never throws), with true exactly when the event had at least
  one subscriber at the time of the call. The calls it makes are the subscribers of that
  moment, in order, one call each: the first runs on the state of the call, each next one
  on the state the one before it left, whether that one returned or threw and whatever
  it did to the registry; the outcome recorded for a call is the outcome of that run,
  and the state after the publish is the state the last subscriber left. With two
  subscribers of which the first throws, the second is called once, on the state the
  first one left.
\<close>

theorem emit_isolates_listeners:
  assumes "distinct (subscribers event s)"
  shows "(\<exists>calls states.
            emit h event args s = (Returns (0 < listenerCount event s), calls, last states)
          \<and> map fst calls = subscribers event s
          \<and> (\<forall>l \<in> set (subscribers event s). count_list (map fst calls) l = 1)
          \<and> length states = Suc (length (subscribers event s))
          \<and> states ! 0 = s
          \<and> (\<forall>i < length (subscribers event s).
                (case subscribers event s ! i of
                   Fn f \<Rightarrow> h f args (states ! i)
                 | OnceWrapper n e f \<Rightarrow> h f args (off e (OnceWrapper n e f) (states ! i)))
                = (snd (calls ! i), states ! Suc i)))
       \<and> (\<forall>f g e s1 w.
            f \<noteq> g \<and> h f args (on event (Fn g) (on event (Fn f) (new_emitter w))) = (Throws e, s1)
            \<longrightarrow> fst (snd (emit h event args (on event (Fn g) (on event (Fn f) (new_emitter w)))))
                  = [(Fn f, Throws e), (Fn g, fst (h g args s1))])"
proof (intro conjI allI impI)
  let ?subs = "subscribers event s"
  from call_listeners_states [of ?subs s h args] obtain states where
    st: "length states = Suc (length ?subs)" "states ! 0 = s"
        "last states = snd (call_listeners h ?subs args s)"
        "\<forall>i < length ?subs. invoke h (?subs ! i) args (states ! i)
              = (snd (fst (call_listeners h ?subs args s) ! i), states ! Suc i)"
    by blast
  let ?calls = "fst (call_listeners h ?subs args s)"
  have m: "map fst ?calls = ?subs" by (rule call_listeners_calls)
  have e: "emit h event args s = (Returns (0 < listenerCount event s), ?calls, last states)"
  proof (cases "?subs = []")
    case True
    with st(1,2) have "last states = s" by (cases states) auto
    with True show ?thesis by (simp add: emit_unfold listenerCount_subscribers)
  next
    case False
    with st(3) show ?thesis by (simp add: emit_unfold listenerCount_subscribers)
  qed
  have c: "\<forall>l \<in> set ?subs. count_list (map fst ?calls) l = 1"
    using assms m by (simp add: distinct_count_list_1)
  have i: "\<forall>i < length ?subs.
                (case ?subs ! i of
                   Fn f \<Rightarrow> h f args (states ! i)
                 | OnceWrapper n e f \<Rightarrow> h f args (off e (OnceWrapper n e f) (states ! i)))
                = (snd (?calls ! i), states ! Suc i)"
    using st(4) by (simp add: invoke_case)
  from e m c st(1,2) i
  show "\<exists>calls states.
            emit h event args s = (Returns (0 < listenerCount event s), calls, last states)
          \<and> map fst calls = subscribers event s
          \<and> (\<forall>l \<in> set (subscribers event s). count_list (map fst calls) l = 1)
          \<and> length states = Suc (length (subscribers event s))
          \<and> states ! 0 = s
          \<and> (\<forall>i < length (subscribers event s).
                (case subscribers event s ! i of
                   Fn f \<Rightarrow> h f args (states ! i)
                 | OnceWrapper n e f \<Rightarrow> h f args (off e (OnceWrapper n e f) (states ! i)))
                = (snd (calls ! i), states ! Suc i))"
    by blast
next
  fix f g e s1 w
  assume a: "f \<noteq> g \<and> h f args (on event (Fn g) (on event (Fn f) (new_emitter w))) = (Throws e, s1)"
  have subs: "subscribers event (on event (Fn g) (on event (Fn f) (new_emitter w))) = [Fn f, Fn g]"
    using a by (simp add: subscribers_on set_add_def)
  show "fst (snd (emit h event args (on event (Fn g) (on event (Fn f) (new_emitter w)))))
          = [(Fn f, Throws e), (Fn g, fst (h g args s1))]"
    using a by (simp add: emit_unfold subs split: prod.splits)
qed

theorem emit_isolates_listeners_witness:
  "distinct (subscribers ''e''
      (on ''e'' (Fn 2) (on ''e'' (Fn 1) (on ''e'' (Fn 0) (new_emitter [])))))
   \<and> emit throwing_handlers ''e'' ()
        (on ''e'' (Fn 2) (on ''e'' (Fn 1) (on ''e'' (Fn 0) (new_emitter []))))
     = (Returns True, [(Fn 0, Throws ''boom''), (Fn 1, Returns ()), (Fn 2, Returns ())],
        (on ''e'' (Fn 2) (on ''e'' (Fn 1) (on ''e'' (Fn 0) (new_emitter []))))
          \<lparr>world := [1, 2]\<rparr>)"
  using emit_isolates_listeners
    [of "''e''" "on ''e'' (Fn 2) (on ''e'' (Fn 1) (on ''e'' (Fn 0) (new_emitter [])))"
        throwing_handlers "()"]
  by (simp add: throwing_handlers_def emit_def on_def off_def once_def new_emitter_def
      set_add_def Let_def listenerCount_def subscribers_def AList.delete_eq)

section \<open>Registering the same listener twice\<close>

lemma on_idem: "on event l (on event l s) = on event l s"
proof -
  have "map_of (events (on event l s)) event = Some (set_add l (subscribers event s))"
    by (cases "map_of (events s) event") (simp_all add: on_def subscribers_def Let_def update_conv')
  moreover have "set_add l (set_add l xs) = set_add l xs" for xs
    by (simp add: set_add_def)
  ultimately show ?thesis
    by (simp add: on_def [of event l "on event l s"] Let_def update_triv)
qed

text \<open>
  C8, as stated, fails: the registry is a set of functions, so the second registration of
  the same function changes nothing, the listener count is 1 and a publish calls the
  function once.
\<close>

theorem on_twice_counterexample:
  "listenerCount ''e'' (on ''e'' (Fn 0) (on ''e'' (Fn 0) (new_emitter []))) = 1
   \<and> listenerCount ''e'' (on ''e'' (Fn 0) (on ''e'' (Fn 0) (new_emitter []))) \<noteq> 2
   \<and> world (snd (snd (emit logging_handlers ''e'' ()
         (on ''e'' (Fn 0) (on ''e'' (Fn 0) (new_emitter [])))))) = [0]
   \<and> count_list (world (snd (snd (emit logging_handlers ''e'' ()
         (on ''e'' (Fn 0) (on ''e'' (Fn 0) (new_emitter []))))))) 0 \<noteq> 2"
  by (simp add: logging_handlers_def emit_def on_def off_def once_def new_emitter_def
      set_add_def Let_def listenerCount_def subscribers_def AList.delete_eq)

text \<open>
  C8, amended. Registering a listener that is already registered for the event leaves the
  registry as it is: the listener count after two registrations is the count after one,
  which is one more than before when the listener was new, and a publish calls the
  listener exactly once.
\<close>

theorem on_twice_registers_once:
  "on event l (on event l s) = on event l s
   \<and> listenerCount event (on event l (on event l s)) = listenerCount event (on event l s)
   \<and> (l \<notin> set (subscribers event s)
        \<longrightarrow> listenerCount event (on event l (on event l s)) = Suc (listenerCount event s))
   \<and> (distinct (subscribers event s)
        \<longrightarrow> count_list (map fst (fst (snd (emit h event args (on event l (on event l s)))))) l = 1)"
proof (intro conjI impI)
  show "on event l (on event l s) = on event l s" by (rule on_idem)
  then show "listenerCount event (on event l (on event l s)) = listenerCount event (on event l s)"
    by simp
  show "listenerCount event (on event l (on event l s)) = Suc (listenerCount event s)"
    if "l \<notin> set (subscribers event s)"
    using that by (simp add: on_idem listenerCount_subscribers subscribers_on set_add_def)
  show "count_list (map fst (fst (snd (emit h event args (on event l (on event l s)))))) l = 1"
    if d: "distinct (subscribers event s)"
  proof -
    let ?s1 = "on event l s"
    have d1: "distinct (subscribers event ?s1)" and in1: "l \<in> set (subscribers event ?s1)"
      using d by (simp_all add: subscribers_on set_add_def)
    have ne: "subscribers event ?s1 \<noteq> []" using in1 by auto
    have "map fst (fst (snd (emit h event args ?s1))) = subscribers event ?s1"
      using ne call_listeners_calls [of h "subscribers event ?s1" args ?s1]
      by (simp add: emit_unfold)
    with d1 in1 show ?thesis by (simp add: on_idem distinct_count_list_1)
  qed
qed

theorem on_twice_registers_once_witness:
  "Fn 0 \<notin> set (subscribers ''e'' (new_emitter []))
   \<and> distinct (subscribers ''e'' (new_emitter []))
   \<and> listenerCount ''e'' (on ''e'' (Fn 0) (on ''e'' (Fn 0) (new_emitter []))) = 1
   \<and> count_list (map fst (fst (snd (emit logging_handlers ''e'' ()
         (on ''e'' (Fn 0) (on ''e'' (Fn 0) (new_emitter []))))))) (Fn 0) = 1"
  using on_twice_registers_once [of "''e''" "Fn 0" "new_emitter []" logging_handlers "()"]
  by (simp add: logging_handlers_def emit_def on_def off_def once_def new_emitter_def
      set_add_def Let_def listenerCount_def subscribers_def AList.delete_eq)

section \<open>One-shot subscriptions\<close>

lemma subscribers_off:
  "subscribers event (off event l s) = remove1 l (subscribers event s)"
proof (cases "map_of (events s) event")
  case None
  then show ?thesis by (simp add: off_def subscribers_def)
next
  case (Some ls)
  then show ?thesis
    by (simp add: off_def subscribers_def Let_def update_conv' delete_conv')
qed

text \<open>
  The wrapper takes itself out of the set before it calls the listener, so a publish of
  the same event from inside the listener does not call the wrapper again.
\<close>

lemma once_wrapper_unsubscribes_first:
  assumes "distinct (subscribers event s)"
  shows "invoke h (OnceWrapper n event f) args s = h f args (off event (OnceWrapper n event f) s)
       \<and> OnceWrapper n event f \<notin> set (subscribers event (off event (OnceWrapper n event f) s))
       \<and> OnceWrapper n event f
           \<notin> fst ` set (fst (snd (emit h' event args' (off event (OnceWrapper n event f) s))))"
proof -
  let ?w = "OnceWrapper n event f"
  have a: "?w \<notin> set (subscribers event (off event ?w s))"
    using assms by (simp add: subscribers_off)
  have "map fst (fst (snd (emit h' event args' (off event ?w s)))) = subscribers event (off event ?w s)"
    using call_listeners_calls [of h' "subscribers event (off event ?w s)" args' "off event ?w s"]
    by (simp add: emit_unfold)
  with a have "?w \<notin> set (map fst (fst (snd (emit h' event args' (off event ?w s)))))"
    by simp
  with a show ?thesis by simp
qed


lemma emit_calls: "map fst (fst (snd (emit h e args s))) = subscribers e s"
  using call_listeners_calls [of h "subscribers e s" args s] by (simp add: emit_unfold)

lemma subscribers_off_other:
  "e' \<noteq> e \<Longrightarrow> subscribers e (off e' l s) = subscribers e s"
  by (cases "map_of (events s) e'")
     (simp_all add: off_def subscribers_def Let_def update_conv' delete_conv')

lemma subscribers_cong: "events s = events t \<Longrightarrow> subscribers e s = subscribers e t"
  by (simp add: subscribers_def)

lemma invoke_subscribers:
  assumes "leaves_registry h" and "distinct (subscribers e s)"
  shows "distinct (subscribers e (snd (invoke h l args s)))
       \<and> set (subscribers e (snd (invoke h l args s))) \<subseteq> set (subscribers e s)
       \<and> (\<forall>n f. l = OnceWrapper n e f \<longrightarrow> l \<notin> set (subscribers e (snd (invoke h l args s))))"
proof (cases l)
  case (Fn g)
  from assms(1) have "events (snd (h g args s)) = events s" by (simp add: leaves_registry_def)
  from subscribers_cong [OF this, of e] Fn assms(2) show ?thesis by simp
next
  case (OnceWrapper n e' f)
  from assms(1) have "events (snd (h f args (off e' l s))) = events (off e' l s)"
    by (simp add: leaves_registry_def)
  from subscribers_cong [OF this, of e]
  have eq: "subscribers e (snd (invoke h l args s)) = subscribers e (off e' l s)"
    using OnceWrapper by simp
  show ?thesis
  proof (cases "e' = e")
    case True
    with eq have "subscribers e (snd (invoke h l args s)) = remove1 l (subscribers e s)"
      by (simp add: subscribers_off)
    with assms(2) show ?thesis by (auto dest: notin_set_remove1)
  next
    case False
    with eq have "subscribers e (snd (invoke h l args s)) = subscribers e s"
      by (simp add: subscribers_off_other)
    with assms(2) OnceWrapper False show ?thesis by simp
  qed
qed

lemma call_listeners_subscribers:
  assumes "leaves_registry h"
  shows "distinct (subscribers e s) \<Longrightarrow>
         distinct (subscribers e (snd (call_listeners h ls args s)))
       \<and> set (subscribers e (snd (call_listeners h ls args s))) \<subseteq> set (subscribers e s)
       \<and> (\<forall>n f. OnceWrapper n e f \<in> set ls
              \<longrightarrow> OnceWrapper n e f \<notin> set (subscribers e (snd (call_listeners h ls args s))))"
proof (induction ls arbitrary: s)
  case Nil
  then show ?case by simp
next
  case (Cons l ls)
  let ?s1 = "snd (invoke h l args s)"
  from invoke_subscribers [OF assms Cons.prems, of l args] have
    i: "distinct (subscribers e ?s1)" "set (subscribers e ?s1) \<subseteq> set (subscribers e s)"
       "\<forall>n f. l = OnceWrapper n e f \<longrightarrow> l \<notin> set (subscribers e ?s1)"
    by blast+
  from Cons.IH [OF i(1)] have
    r: "distinct (subscribers e (snd (call_listeners h ls args ?s1)))"
       "set (subscribers e (snd (call_listeners h ls args ?s1))) \<subseteq> set (subscribers e ?s1)"
       "\<forall>n f. OnceWrapper n e f \<in> set ls
              \<longrightarrow> OnceWrapper n e f \<notin> set (subscribers e (snd (call_listeners h ls args ?s1)))"
    by blast+
  have s: "snd (call_listeners h (l # ls) args s) = snd (call_listeners h ls args ?s1)"
    by (simp split: prod.splits)
  show ?case unfolding s using i r by auto
qed

text \<open>
  When no callback touches the registry, the publish after \<^verbatim>\<open>once\<close> calls the
  wrapper exactly once and leaves it unsubscribed, so no later publish calls it.
\<close>

lemma once_called_once_without_republish:
  assumes "leaves_registry h" and "distinct (subscribers event s)"
    and "OnceWrapper (closures s) event f \<notin> set (subscribers event s)"
  shows "count_list (map fst (fst (snd (emit h event args (once event f s)))))
           (OnceWrapper (closures s) event f) = 1
       \<and> OnceWrapper (closures s) event f
           \<notin> set (subscribers event (snd (snd (emit h event args (once event f s)))))
       \<and> OnceWrapper (closures s) event f
           \<notin> fst ` set (fst (snd (emit h event args'
                                   (snd (snd (emit h event args (once event f s)))))))"
proof -
  let ?w = "OnceWrapper (closures s) event f"
  let ?s1 = "once event f s"
  let ?s2 = "snd (snd (emit h event args ?s1))"
  have subs: "subscribers event ?s1 = subscribers event s @ [?w]"
    using assms(3) subscribers_on [of event ?w "s\<lparr>closures := Suc (closures s)\<rparr>"]
    by (simp add: once_def set_add_def subscribers_def)
  then have d: "distinct (subscribers event ?s1)" using assms(2,3) by simp
  have calls: "map fst (fst (snd (emit h event args ?s1))) = subscribers event ?s1"
    by (rule emit_calls)
  have 1: "count_list (map fst (fst (snd (emit h event args ?s1)))) ?w = 1"
    unfolding calls using d subs by (simp add: distinct_count_list_1)
  have s2: "?s2 = snd (call_listeners h (subscribers event ?s1) args ?s1)"
    using subs by (simp add: emit_unfold)
  have 2: "?w \<notin> set (subscribers event ?s2)"
    unfolding s2 using call_listeners_subscribers [OF assms(1) d, of "subscribers event ?s1" args] subs
    by simp
  have "map fst (fst (snd (emit h event args' ?s2))) = subscribers event ?s2"
    by (rule emit_calls)
  with 2 have 3: "?w \<notin> set (map fst (fst (snd (emit h event args' ?s2))))" by simp
  from 1 2 3 show ?thesis by (simp only: set_map) blast
qed


text \<open>
  C7 fails on the code. With callback 0 subscribed before the one-shot listener 1, one
  publish from outside runs listener 1 twice: the nested publish calls the wrapper, which
  removes itself and calls listener 1; the outer dispatch then calls the wrapper again
  from its copy of the set, and the wrapper calls listener 1 a second time.
\<close>

theorem once_listener_called_twice:
  "world (snd (snd (emit republishing_handlers ''e'' ()
      (once ''e'' 1 (on ''e'' (Fn 0) (new_emitter [])))))) = [0, 1, 1]
   \<and> fst (snd (emit republishing_handlers ''e'' ()
      (once ''e'' 1 (on ''e'' (Fn 0) (new_emitter [])))))
     = [(Fn 0, Returns ()), (OnceWrapper 0 ''e'' 1, Returns ())]"
  by (simp add: republishing_handlers_def logging_handlers_def emit_def on_def off_def
      once_def new_emitter_def set_add_def Let_def AList.delete_eq)

section \<open>Decoding and the filter\<close>

lemma obind_Returns_iff: "obind m k = Returns y \<longleftrightarrow> (\<exists>v. m = Returns v \<and> k v = Returns y)"
  by (cases m) (simp_all add: obind_def)

lemma obind_Returns [simp]: "obind (Returns v) k = k v"
  by (simp add: obind_def)

lemma obind_Throws [simp]: "obind (Throws e) k = Throws e"
  by (simp add: obind_def)

lemma try_catch_simps [simp]:
  "try_catch (Returns v) h = Returns v"
  "try_catch (Throws e) h = h e"
  by (simp_all add: try_catch_def)

lemma app_event_inj [simp]: "app_event a = app_event b \<longleftrightarrow> a = b"
  by (simp add: app_event_def)

lemma app_event_not_pusher [simp]:
  "\<not> prefix ''pusher:'' (app_event n)"
  "\<not> prefix ''pusher_internal:'' (app_event n)"
  "app_event n \<noteq> []"
  by (simp_all add: app_event_def)

lemma map_of_eventTypeMap_simps:
  "map_of eventTypeMap (app_event ''ChatMessageEvent'') = Some ''ChatMessage''"
  "map_of eventTypeMap (app_event ''MessageDeletedEvent'') = Some ''MessageDeleted''"
  "map_of eventTypeMap (app_event ''UserBannedEvent'') = Some ''UserBanned''"
  "map_of eventTypeMap (app_event ''UserUnbannedEvent'') = Some ''UserUnbanned''"
  "map_of eventTypeMap (app_event ''SubscriptionEvent'') = Some ''Subscription''"
  "map_of eventTypeMap (app_event ''GiftedSubscriptionsEvent'') = Some ''GiftedSubscriptions''"
  "map_of eventTypeMap (app_event ''PinnedMessageCreatedEvent'') = Some ''PinnedMessageCreated''"
  "map_of eventTypeMap (app_event ''StreamHostEvent'') = Some ''StreamHost''"
  "map_of eventTypeMap (app_event ''PollUpdateEvent'') = Some ''PollUpdate''"
  "map_of eventTypeMap (app_event ''PollDeleteEvent'') = Some ''PollDelete''"
  by (simp_all add: eventTypeMap_def)

lemma parse_event_kind:
  assumes "parse_event event eventData = Returns (Some (kind, d))"
  shows "\<exists>name. event = JStr name \<and> map_of eventTypeMap name = Some kind"
proof -
  have k: "obind m (\<lambda>d. Returns (Some (K, d))) = Returns (Some (kind, d)) \<Longrightarrow> kind = K"
    for m :: "jsv outcome" and K
    by (cases m) simp_all
  show ?thesis
    using assms unfolding parse_event_def
    by (auto split: if_splits dest!: k simp: map_of_eventTypeMap_simps)
qed

lemma inner_try_Some:
  "try_catch (obind m (\<lambda>v. Returns (Some v))) (\<lambda>e. Returns None) = Returns (Some x)
     \<longleftrightarrow> m = Returns x"
  by (cases m) simp_all

lemma parseMessage_body_Some:
  assumes "parseMessage_body rt raw = Returns (Some (kind, d))"
  shows "\<exists>message event data eventData.
           raw \<noteq> [] \<and> trim raw \<noteq> [] \<and> JSON_parse rt raw = Returns message
         \<and> get_prop message ''event'' = Returns event \<and> truthy event
         \<and> is_pusher_event event = Returns False \<and> event \<noteq> JStr []
         \<and> get_prop message ''data'' = Returns data \<and> data \<noteq> JUndefined \<and> data \<noteq> JStr []
         \<and> JSON_parse_value rt data = Returns eventData
         \<and> parse_event event eventData = Returns (Some (kind, d))"
  using assms unfolding parseMessage_body_def
  by (auto simp: obind_Returns_iff inner_try_Some split: if_splits outcome.splits option.splits)

lemma parseMessage_Some_body:
  "parseMessage rt raw = Returns (Some r) \<longleftrightarrow> parseMessage_body rt raw = Returns (Some r)"
  by (cases "parseMessage_body rt raw") (simp_all add: parseMessage_def)

lemma parseMessage_extractEventType:
  assumes "parseMessage rt raw = Returns (Some (kind, d))"
  shows "\<exists>name. extractEventType rt raw = Returns (Some (JStr name)) \<and> name \<noteq> []
               \<and> map_of eventTypeMap name = Some kind"
proof -
  from assms have "parseMessage_body rt raw = Returns (Some (kind, d))"
    by (simp add: parseMessage_Some_body)
  from parseMessage_body_Some [OF this] obtain message event eventData where
    b: "raw \<noteq> []" "trim raw \<noteq> []" "JSON_parse rt raw = Returns message"
       "get_prop message ''event'' = Returns event" "truthy event"
       "is_pusher_event event = Returns False" "event \<noteq> JStr []"
       "parse_event event eventData = Returns (Some (kind, d))"
    by blast
  from parse_event_kind [OF b(8)] obtain name where
    n: "event = JStr name" "map_of eventTypeMap name = Some kind" by blast
  from b n have "extractEventType rt raw = Returns (Some (JStr name))"
    by (simp add: extractEventType_def extractEventType_body_def)
  with n b(7) show ?thesis by auto
qed


section \<open>Emote substitution\<close>

lemma literal_iff: "literal p s = Some r \<longleftrightarrow> s = p @ r"
  by (induction p s rule: literal.induct) auto

lemma literal_append [simp]: "literal p (p @ s) = Some s"
  by (simp add: literal_iff)

lemma literal_extend:
  "x \<notin> set p \<Longrightarrow> literal p (s @ x # t) = map_option (\<lambda>r. r @ x # t) (literal p s)"
  by (induction p s rule: literal.induct) auto

lemma literal_extend_nonempty:
  assumes "x \<notin> set (tl p)" and "s \<noteq> []"
  shows "literal p (s @ x # t) = map_option (\<lambda>r. r @ x # t) (literal p s)"
proof (cases p)
  case Nil
  then show ?thesis by simp
next
  case (Cons q qs)
  from assms(2) obtain c cs where s: "s = c # cs" by (cases s) auto
  from assms(1) Cons have "x \<notin> set qs" by simp
  then show ?thesis using Cons s by (simp add: literal_extend)
qed

lemma while_extend:
  "\<not> cls x \<Longrightarrow> takeWhile cls (s @ x # t) = takeWhile cls s
             \<and> dropWhile cls (s @ x # t) = dropWhile cls s @ x # t"
  by (induction s) auto

lemma many1_extend:
  "\<not> cls x \<Longrightarrow> many1 cls (s @ x # t) = map_option (\<lambda>(a, r). (a, r @ x # t)) (many1 cls s)"
  by (simp add: many1_def while_extend)

lemma many1_run:
  "a \<noteq> [] \<Longrightarrow> list_all cls a \<Longrightarrow> \<not> cls x \<Longrightarrow> many1 cls (a @ x # t) = Some (a, x # t)"
  by (simp add: many1_def list_all_iff takeWhile_append2 dropWhile_append2)

lemma many1_Some:
  "many1 cls s = Some (a, r) \<Longrightarrow> a \<noteq> [] \<and> list_all cls a \<and> s = a @ r"
  by (auto simp: many1_def list_all_iff split: if_splits dest: set_takeWhileD)

lemma bracket_classes [simp]:
  "\<not> is_digit CHR ''[''" "\<not> is_word CHR ''[''" "\<not> is_digit CHR '':''" "\<not> is_word CHR '']''"
  by (simp_all add: is_digit_def is_word_def)

lemma match_emote_extend:
  assumes "s \<noteq> []"
  shows "match_emote (s @ CHR ''['' # t)
         = map_option (\<lambda>(name, rest). (name, rest @ CHR ''['' # t)) (match_emote s)"
proof -
  have 1: "literal ''[emote:'' (s @ CHR ''['' # t)
           = map_option (\<lambda>r. r @ CHR ''['' # t) (literal ''[emote:'' s)"
    by (rule literal_extend_nonempty) (use assms in simp_all)
  have 2: "literal '':'' (u @ CHR ''['' # t) = map_option (\<lambda>r. r @ CHR ''['' # t) (literal '':'' u)"
          "literal '']'' (u @ CHR ''['' # t) = map_option (\<lambda>r. r @ CHR ''['' # t) (literal '']'' u)" for u
    by (rule literal_extend, simp)+
  show ?thesis
    unfolding match_emote_def 1
    by (auto simp: 2 many1_extend split: option.splits)
qed

lemma match_emote_placeholder:
  assumes "emote_parts ident name"
  shows "match_emote (placeholder ident name @ post) = Some (name, post)"
proof -
  from assms have i: "ident \<noteq> []" "list_all is_digit ident" and n: "name \<noteq> []" "list_all is_word name"
    by (simp_all add: emote_parts_def)
  have a: "placeholder ident name @ post = ''[emote:'' @ (ident @ CHR '':'' # (name @ CHR '']'' # post))"
    by (simp add: placeholder_def)
  have b: "many1 is_digit (ident @ CHR '':'' # (name @ CHR '']'' # post))
           = Some (ident, CHR '':'' # (name @ CHR '']'' # post))"
    using i by (simp add: many1_run)
  have c: "many1 is_word (name @ CHR '']'' # post) = Some (name, CHR '']'' # post)"
    using n by (simp add: many1_run)
  show ?thesis
    by (simp add: a match_emote_def b c)
qed

lemma match_emote_Some:
  assumes "match_emote s = Some (name, rest)"
  shows "\<exists>ident. emote_parts ident name \<and> s = placeholder ident name @ rest"
proof -
  from assms obtain s1 where s1: "literal ''[emote:'' s = Some s1"
    by (auto simp: match_emote_def split: option.splits)
  from assms s1 obtain ds s2 where s2: "many1 is_digit s1 = Some (ds, s2)"
    by (auto simp: match_emote_def split: option.splits)
  from assms s1 s2 obtain s3 where s3: "literal '':'' s2 = Some s3"
    by (auto simp: match_emote_def split: option.splits)
  from assms s1 s2 s3 have s4: "many1 is_word s3 = Some (name, dropWhile is_word s3)"
    and r: "literal '']'' (dropWhile is_word s3) = Some rest"
    by (auto simp: match_emote_def many1_def split: option.splits if_splits)
  from many1_Some [OF s2] many1_Some [OF s4] have "emote_parts ds name"
    by (simp add: emote_parts_def)
  moreover have "s = placeholder ds name @ rest"
    using s1 s3 r many1_Some [OF s2] many1_Some [OF s4]
    by (simp add: literal_iff placeholder_def)
  ultimately show ?thesis by blast
qed

lemma replace_emotes_bracket:
  assumes u: "u = CHR ''['' # t"
  shows "replace_emotes (pre @ u) = replace_emotes pre @ replace_emotes u"
proof (induction pre rule: replace_emotes.induct)
  case 1
  show ?case by simp
next
  case (2 c cs)
  have ext: "match_emote ((c # cs) @ u)
             = map_option (\<lambda>(name, rest). (name, rest @ u)) (match_emote (c # cs))"
    unfolding u by (rule match_emote_extend) simp
  show ?case
  proof (cases "match_emote (c # cs)")
    case None
    with ext have "match_emote (c # (cs @ u)) = None" by simp
    with None 2(1) show ?thesis by simp
  next
    case (Some m)
    obtain name rest where m: "m = (name, rest)" by (cases m)
    have e: "match_emote (c # cs) = Some (name, rest)" using Some m by simp
    with ext have e': "match_emote (c # (cs @ u)) = Some (name, rest @ u)" by simp
    have ih: "replace_emotes (rest @ u) = replace_emotes rest @ replace_emotes u"
      by (rule 2(2) [OF e refl])
    have "replace_emotes ((c # cs) @ u) = name @ replace_emotes (rest @ u)"
      using e' by simp
    also have "\<dots> = (name @ replace_emotes rest) @ replace_emotes u"
      by (simp add: ih)
    also have "name @ replace_emotes rest = replace_emotes (c # cs)"
      using e by simp
    finally show ?thesis .
  qed
qed

lemma replace_emotes_placeholder:
  assumes "emote_parts ident name"
  shows "replace_emotes (pre @ placeholder ident name @ post)
         = replace_emotes pre @ name @ replace_emotes post"
proof -
  obtain t where t: "placeholder ident name @ post = CHR ''['' # t"
    by (simp add: placeholder_def)
  have "replace_emotes (pre @ placeholder ident name @ post)
        = replace_emotes pre @ replace_emotes (placeholder ident name @ post)"
    unfolding t by (rule replace_emotes_bracket) simp
  also have "replace_emotes (placeholder ident name @ post) = name @ replace_emotes post"
    using match_emote_placeholder [OF assms, of post] unfolding t by simp
  finally show ?thesis .
qed

lemma replace_emotes_unchanged:
  "\<not> has_placeholder s \<Longrightarrow> replace_emotes s = s"
proof (induction s)
  case Nil
  show ?case by simp
next
  case (Cons c cs)
  have "match_emote (c # cs) = None"
  proof (rule ccontr)
    assume "match_emote (c # cs) \<noteq> None"
    then obtain name rest where "match_emote (c # cs) = Some (name, rest)" by auto
    from match_emote_Some [OF this] obtain ident where
      "emote_parts ident name" "c # cs = [] @ placeholder ident name @ rest" by auto
    then have "has_placeholder (c # cs)" unfolding has_placeholder_def by blast
    with Cons.prems show False by simp
  qed
  moreover have "\<not> has_placeholder cs"
  proof
    assume "has_placeholder cs"
    then obtain pre ident name post where
      "emote_parts ident name" "cs = pre @ placeholder ident name @ post"
      unfolding has_placeholder_def by blast
    then have "emote_parts ident name \<and> c # cs = (c # pre) @ placeholder ident name @ post" by simp
    then have "has_placeholder (c # cs)" unfolding has_placeholder_def by blast
    with Cons.prems show False by simp
  qed
  ultimately show ?case using Cons.IH by simp
qed

lemma no_bracket_no_placeholder: "CHR ''['' \<notin> set s \<Longrightarrow> \<not> has_placeholder s"
  by (auto simp: has_placeholder_def placeholder_def)

lemma cleanEmotes_simps:
  "cleanEmotes (JStr s) = Returns (JStr (replace_emotes s))"
  "cleanEmotes JUndefined = Returns (JStr [])"
  "cleanEmotes JNull = Returns (JStr [])"
  by (cases s) (simp_all add: cleanEmotes_def)

lemma parseChatMessage_content:
  assumes "parseChatMessage data = Returns r"
  shows "\<exists>c cleaned. get_prop data ''content'' = Returns c \<and> cleanEmotes c = Returns cleaned
                    \<and> get_prop r ''content'' = Returns cleaned"
  using assms unfolding parseChatMessage_def
  by (auto simp: obind_Returns_iff)

section \<open>The decoder\<close>

lemma get_prop_object: "is_object d \<Longrightarrow> get_prop d k = Returns (own d k)"
  by (cases d) (simp_all add: own_def)

lemma get_prop_opt_object:
  "v = JUndefined \<or> is_object v \<Longrightarrow> get_prop_opt v k = Returns (own v k)"
  by (cases v) (auto simp: own_def)

lemma optional_object:
  "optional (\<lambda>v. is_object v \<and> P v) v \<Longrightarrow> v = JUndefined \<or> is_object v"
  by (auto simp: optional_def)

lemma typeof_stringE: "typeof_string v \<Longrightarrow> (\<And>s. v = JStr s \<Longrightarrow> thesis) \<Longrightarrow> thesis"
  by (cases v) simp_all

lemma cleanEmotes_string: "typeof_string c \<Longrightarrow> \<exists>r. cleanEmotes c = Returns r"
  by (auto elim!: typeof_stringE simp: cleanEmotes_simps)

lemma parseChatMessage_returns:
  assumes "RawChatMessageData d"
  shows "\<exists>r. parseChatMessage d = Returns r"
proof -
  from assms have o: "is_object d" "is_object (own d ''sender'')"
    and c: "typeof_string (own d ''content'')"
    and i: "own (own d ''sender'') ''identity'' = JUndefined \<or> is_object (own (own d ''sender'') ''identity'')"
    and r: "own d ''chatroom'' = JUndefined \<or> is_object (own d ''chatroom'')"
    by (auto simp: RawChatMessageData_def dest: optional_object)
  from cleanEmotes_string [OF c] obtain cleaned where "cleanEmotes (own d ''content'') = Returns cleaned" ..
  then show ?thesis
    using o i r by (simp add: parseChatMessage_def get_prop_object get_prop_opt_object)
qed

lemma parseMessageDeleted_returns:
  "RawMessageDeletedData d \<Longrightarrow> \<exists>r. parseMessageDeleted d = Returns r"
  by (simp add: RawMessageDeletedData_def parseMessageDeleted_def get_prop_object)

lemma parseUserBanned_returns:
  "RawUserBannedData d \<Longrightarrow> \<exists>r. parseUserBanned d = Returns r"
  by (simp add: RawUserBannedData_def parseUserBanned_def get_prop_object)

lemma parseUserUnbanned_returns:
  "RawUserUnbannedData d \<Longrightarrow> \<exists>r. parseUserUnbanned d = Returns r"
  by (simp add: RawUserUnbannedData_def parseUserUnbanned_def get_prop_object)

lemma has_username_object: "optional has_username v \<Longrightarrow> v = JUndefined \<or> is_object v"
  by (auto simp: optional_def has_username_def)

lemma parseSubscription_returns:
  "RawSubscriptionData d \<Longrightarrow> \<exists>r. parseSubscription d = Returns r"
  by (auto simp: RawSubscriptionData_def parseSubscription_def get_prop_object
      get_prop_opt_object dest!: has_username_object)

lemma map_outcome_returns:
  "(\<And>x. x \<in> set xs \<Longrightarrow> \<exists>y. f x = Returns y) \<Longrightarrow> \<exists>ys. map_outcome f xs = Returns ys"
proof (induction xs)
  case Nil
  show ?case by simp
next
  case (Cons x xs)
  from Cons.prems obtain y where "f x = Returns y" by auto
  moreover from Cons obtain ys where "map_outcome f xs = Returns ys" by auto
  ultimately show ?case by simp
qed

lemma parseGiftedSubscriptions_returns:
  assumes "RawGiftedSubscriptionsData d"
  shows "\<exists>r. parseGiftedSubscriptions d = Returns r"
proof -
  from assms have o: "is_object d"
    and g: "own d ''gifter'' = JUndefined \<or> is_object (own d ''gifter'')"
    and rs: "optional (is_array_of (\<lambda>r. typeof_string r \<or> has_username r)) (own d ''recipients'')"
    by (auto simp: RawGiftedSubscriptionsData_def dest: has_username_object)
  have gifter: "\<exists>x. (if typeof_object (own d ''gifter'') then get_prop (own d ''gifter'') ''username''
                     else Returns (own d ''gifter'')) = Returns x"
    using g by (auto simp: get_prop_object)
  let ?f = "\<lambda>r. if typeof_string r then Returns r
                 else obind (get_prop r ''username'') (\<lambda>u. Returns (js_or u (JStr ''unknown'')))"
  have rec: "\<exists>x. (case own d ''recipients'' of
                    JArr xs \<Rightarrow> obind (map_outcome ?f xs) (\<lambda>ys. Returns (JArr ys))
                  | _ \<Rightarrow> Returns (JArr [])) = Returns x"
  proof (cases "own d ''recipients''")
    case (JArr xs)
    with rs have "list_all (\<lambda>r. typeof_string r \<or> has_username r) xs"
      by (simp add: optional_def)
    then have "\<exists>y. ?f x = Returns y" if "x \<in> set xs" for x
      using that by (auto simp: list_all_iff has_username_def get_prop_object)
    from map_outcome_returns [of xs ?f, OF this] obtain ys where "map_outcome ?f xs = Returns ys"
      by blast
    with JArr show ?thesis by simp
  qed simp_all
  from gifter rec o show ?thesis
    by (auto simp: parseGiftedSubscriptions_def get_prop_object)
qed

lemma parsePinnedMessageCreated_returns:
  assumes "RawPinnedMessageCreatedData d"
  shows "\<exists>r. parsePinnedMessageCreated d = Returns r"
proof -
  from assms have "is_object d" "RawChatMessageData (own d ''message'')"
    by (simp_all add: RawPinnedMessageCreatedData_def)
  with parseChatMessage_returns [of "own d ''message''"] show ?thesis
    by (auto simp: parsePinnedMessageCreated_def get_prop_object)
qed

lemma string_or_username_returns:
  "optional (\<lambda>h. typeof_string h \<or> has_username h) v \<Longrightarrow> \<exists>r. string_or_username v = Returns r"
  by (auto simp: optional_def string_or_username_def has_username_def get_prop_opt_object)

lemma parseStreamHost_returns:
  assumes "RawStreamHostData d"
  shows "\<exists>r. parseStreamHost d = Returns r"
proof -
  from assms have o: "is_object d" by (simp add: RawStreamHostData_def)
  from assms obtain h c where "string_or_username (own d ''hoster'') = Returns h"
      "string_or_username (own d ''hosted_channel'') = Returns c"
    using string_or_username_returns unfolding RawStreamHostData_def by blast
  with o show ?thesis by (simp add: parseStreamHost_def get_prop_object)
qed

lemma parsePollUpdate_returns:
  assumes "RawPollUpdateData d"
  shows "\<exists>r. parsePollUpdate d = Returns r"
proof -
  let ?P = "\<lambda>opt. is_object opt \<and> typeof_string (own opt ''id'') \<and> typeof_string (own opt ''text'')
                  \<and> optional is_number (own opt ''votes'')"
  let ?f = "\<lambda>opt. obind (get_prop opt ''id'') (\<lambda>oid.
                  obind (get_prop opt ''text'') (\<lambda>text.
                  obind (get_prop opt ''votes'') (\<lambda>votes.
                    Returns (JObj [(''id'', oid), (''text'', text),
                                   (''votes'', js_or votes (JNum 0))]))))"
  from assms have o: "is_object d" and os: "optional (is_array_of ?P) (own d ''options'')"
    by (simp_all add: RawPollUpdateData_def)
  have "\<exists>x. (case js_or (own d ''options'') (JArr []) of
               JArr xs \<Rightarrow> obind (map_outcome ?f xs) (\<lambda>ys. Returns (JArr ys))
             | _ \<Rightarrow> Throws ''TypeError'') = Returns x"
  proof (cases "own d ''options'' = JUndefined")
    case True
    then show ?thesis by (simp add: js_or_def)
  next
    case False
    with os obtain xs where xs: "own d ''options'' = JArr xs" "list_all ?P xs"
      by (cases "own d ''options''") (auto simp: optional_def)
    have "\<exists>y. ?f x = Returns y" if "x \<in> set xs" for x
      using that xs(2) by (auto simp: list_all_iff get_prop_object)
    from map_outcome_returns [of xs ?f, OF this] obtain ys where "map_outcome ?f xs = Returns ys"
      by blast
    with xs show ?thesis by (simp add: js_or_def)
  qed
  with o show ?thesis by (auto simp: parsePollUpdate_def get_prop_object)
qed

lemma parsePollDelete_returns:
  "RawPollDeleteData d \<Longrightarrow> \<exists>r. parsePollDelete d = Returns r"
  by (simp add: RawPollDeleteData_def parsePollDelete_def get_prop_object)

text \<open>
  The shape matters: a chat payload that is an object without \<^verbatim>\<open>sender\<close> makes
  \<^verbatim>\<open>parseChatMessage\<close> throw at \<^verbatim>\<open>data.sender.id\<close>, which \<^verbatim>\<open>parseMessage\<close> turns into null.
\<close>

lemma parseChatMessage_without_sender: "parseChatMessage (JObj []) = Throws ''TypeError''"
  by (simp add: parseChatMessage_def cleanEmotes_def)

lemma trim_empty_iff: "trim s = [] \<longleftrightarrow> list_all js_whitespace s"
proof -
  have "dropWhile js_whitespace (rev (dropWhile js_whitespace s)) = []
        \<longleftrightarrow> dropWhile js_whitespace s = []"
  proof
    assume a: "dropWhile js_whitespace (rev (dropWhile js_whitespace s)) = []"
    show "dropWhile js_whitespace s = []"
    proof (rule ccontr)
      assume n: "dropWhile js_whitespace s \<noteq> []"
      then have "\<not> js_whitespace (hd (dropWhile js_whitespace s))"
        by (rule hd_dropWhile)
      moreover from n have "hd (dropWhile js_whitespace s) \<in> set (rev (dropWhile js_whitespace s))"
        by simp
      ultimately show False using a by (auto simp: dropWhile_eq_Nil_conv)
    qed
  next
    assume "dropWhile js_whitespace s = []"
    then show "dropWhile js_whitespace (rev (dropWhile js_whitespace s)) = []"
      by (simp only: rev.simps dropWhile.simps)
  qed
  then show ?thesis by (simp add: trim_def dropWhile_eq_Nil_conv list_all_iff)
qed

lemma get_prop_own: "get_prop v k = Returns x \<Longrightarrow> x = own v k"
  by (cases v) (auto simp: own_def)

lemma parseMessage_returns: "\<exists>r. parseMessage rt raw = Returns r"
  by (cases "parseMessage_body rt raw") (simp_all add: parseMessage_def)

lemma parseMessage_None_or_Some:
  "parseMessage rt raw = Returns None
   \<or> (\<exists>kind d. parseMessage_body rt raw = Returns (Some (kind, d)))"
proof (cases "parseMessage_body rt raw")
  case (Returns r)
  then show ?thesis by (cases r) (auto simp: parseMessage_def)
next
  case (Throws e)
  then show ?thesis by (simp add: parseMessage_def)
qed

lemma well_formed_payload_simps:
  "well_formed_payload ''ChatMessage'' = RawChatMessageData"
  "well_formed_payload ''MessageDeleted'' = RawMessageDeletedData"
  "well_formed_payload ''UserBanned'' = RawUserBannedData"
  "well_formed_payload ''UserUnbanned'' = RawUserUnbannedData"
  "well_formed_payload ''Subscription'' = RawSubscriptionData"
  "well_formed_payload ''GiftedSubscriptions'' = RawGiftedSubscriptionsData"
  "well_formed_payload ''PinnedMessageCreated'' = RawPinnedMessageCreatedData"
  "well_formed_payload ''StreamHost'' = RawStreamHostData"
  "well_formed_payload ''PollUpdate'' = RawPollUpdateData"
  "well_formed_payload ''PollDelete'' = RawPollDeleteData"
  by (simp_all add: well_formed_payload_def fun_eq_iff)

lemma parse_event_table:
  "\<forall>(name, kind) \<in> set eventTypeMap.
     well_formed_payload kind p \<longrightarrow> (\<exists>d. parse_event (JStr name) p = Returns (Some (kind, d)))"
proof -
  have r: "(\<exists>r. m = Returns r) \<Longrightarrow> \<exists>d. obind m (\<lambda>d. Returns (Some (K, d))) = Returns (Some (K, d))"
    for m :: "jsv outcome" and K :: string
    by auto
  show ?thesis
    unfolding eventTypeMap_def
    by (simp add: well_formed_payload_simps parse_event_def r
        parseChatMessage_returns parseMessageDeleted_returns parseUserBanned_returns
        parseUserUnbanned_returns parseSubscription_returns parseGiftedSubscriptions_returns
        parsePinnedMessageCreated_returns parseStreamHost_returns parsePollUpdate_returns
        parsePollDelete_returns)
qed

lemma parse_event_recognized:
  assumes "map_of eventTypeMap name = Some kind" and "well_formed_payload kind p"
  shows "\<exists>d. parse_event (JStr name) p = Returns (Some (kind, d))"
proof -
  from assms(1) have "(name, kind) \<in> set eventTypeMap" by (rule map_of_SomeD)
  with parse_event_table [of p] assms(2) show ?thesis by blast
qed

lemma eventTypeMap_names:
  "\<forall>(name, kind) \<in> set eventTypeMap.
     \<not> prefix ''pusher:'' name \<and> \<not> prefix ''pusher_internal:'' name \<and> name \<noteq> []"
  unfolding eventTypeMap_def by simp

lemma parseMessage_recognized:
  assumes "\<not> list_all js_whitespace raw" and "JSON_parse rt raw = Returns message"
    and "own message ''event'' = JStr name" and "map_of eventTypeMap name = Some kind"
    and "own message ''data'' = JStr payload_text" and "payload_text \<noteq> []"
    and "JSON_parse rt payload_text = Returns payload" and "well_formed_payload kind payload"
  shows "\<exists>d. parseMessage rt raw = Returns (Some (kind, d))"
proof -
  from assms(1) have raw: "raw \<noteq> []" "trim raw \<noteq> []"
    by (auto simp: trim_empty_iff)
  from assms(3) have obj: "is_object message"
    by (cases message) (simp_all add: own_def)
  from assms(4) have "(name, kind) \<in> set eventTypeMap" by (rule map_of_SomeD)
  with eventTypeMap_names have n: "\<not> prefix ''pusher:'' name" "\<not> prefix ''pusher_internal:'' name"
      "name \<noteq> []"
    by blast+
  from parse_event_recognized [OF assms(4) assms(8)] obtain d where
    d: "parse_event (JStr name) payload = Returns (Some (kind, d))" ..
  have "parseMessage_body rt raw = Returns (Some (kind, d))"
    using raw assms(2,3,5,6,7) obj d n
    by (simp add: parseMessage_body_def get_prop_object is_pusher_event_def JSON_parse_value_def)
  then show ?thesis by (simp add: parseMessage_def)
qed

lemmas example_eval =
  parseMessage_def parseMessage_body_def example_runtime_def example_texts_def trim_def
  js_whitespace_def ban_frame_def ban_payload_def chat_frame_def chat_payload_def
  system_frame_def unknown_frame_def no_data_frame_def bad_data_frame_def empty_frame_def
  frame_def json_escape_def app_event_def is_pusher_event_def JSON_parse_value_def
  parse_event_def

lemma example_ban_decodes:
  "parseMessage example_runtime ban_frame
     = Returns (Some (''UserBanned'', JObj [(''username'', JStr ''bob''), (''type'', JStr ''user_banned'')]))"
  by (simp add: example_eval parseUserBanned_def)

text \<open>
  C1. \<^verbatim>\<open>parseMessage\<close> returns on every input and every runtime: it never throws. It
  returns null when the input is empty or white space only; when the input is not JSON;
  when the envelope has no event or no data; when the event name starts with
  \<^verbatim>\<open>pusher:\<close> or \<^verbatim>\<open>pusher_internal:\<close>, whatever the data field holds; when the event or the
  data is the empty string; when the data field is not JSON; and when the event is not a
  name of the table. For a name of the table, with a data field that is the JSON text of
  a payload of the shape that goes with the kind, the result is not null and carries the
  kind of the table.
\<close>

theorem parseMessage_never_throws:
  "(\<exists>r. parseMessage rt raw = Returns r)
   \<and> (list_all js_whitespace raw \<longrightarrow> parseMessage rt raw = Returns None)
   \<and> (JSON_parse rt raw = Throws e \<longrightarrow> parseMessage rt raw = Returns None)
   \<and> (JSON_parse rt raw = Returns message
        \<and> (own message ''event'' = JUndefined \<or> own message ''data'' = JUndefined)
        \<longrightarrow> parseMessage rt raw = Returns None)
   \<and> (JSON_parse rt raw = Returns message \<and> own message ''event'' = JStr name
        \<and> (prefix ''pusher:'' name \<or> prefix ''pusher_internal:'' name)
        \<longrightarrow> parseMessage rt raw = Returns None)
   \<and> (JSON_parse rt raw = Returns message
        \<and> (own message ''event'' = JStr [] \<or> own message ''data'' = JStr [])
        \<longrightarrow> parseMessage rt raw = Returns None)
   \<and> (JSON_parse rt raw = Returns message
        \<and> JSON_parse_value rt (own message ''data'') = Throws e
        \<longrightarrow> parseMessage rt raw = Returns None)
   \<and> (JSON_parse rt raw = Returns message
        \<and> (\<forall>n. own message ''event'' = JStr n \<longrightarrow> map_of eventTypeMap n = None)
        \<longrightarrow> parseMessage rt raw = Returns None)
   \<and> (\<not> list_all js_whitespace raw \<and> JSON_parse rt raw = Returns message
        \<and> own message ''event'' = JStr name \<and> map_of eventTypeMap name = Some kind
        \<and> own message ''data'' = JStr payload_text \<and> payload_text \<noteq> []
        \<and> JSON_parse rt payload_text = Returns payload \<and> well_formed_payload kind payload
        \<longrightarrow> (\<exists>d. parseMessage rt raw = Returns (Some (kind, d))))"
proof -
  have null: "parseMessage rt raw = Returns None"
    if "\<And>k d m ev dat v.
          raw \<noteq> [] \<Longrightarrow> trim raw \<noteq> [] \<Longrightarrow> JSON_parse rt raw = Returns m
          \<Longrightarrow> ev = own m ''event'' \<Longrightarrow> truthy ev \<Longrightarrow> is_pusher_event ev = Returns False
          \<Longrightarrow> ev \<noteq> JStr [] \<Longrightarrow> dat = own m ''data'' \<Longrightarrow> dat \<noteq> JUndefined \<Longrightarrow> dat \<noteq> JStr []
          \<Longrightarrow> JSON_parse_value rt dat = Returns v
          \<Longrightarrow> parse_event ev v = Returns (Some (k, d)) \<Longrightarrow> False"
  proof -
    from parseMessage_None_or_Some [of rt raw] show ?thesis
    proof
      assume "\<exists>kind d. parseMessage_body rt raw = Returns (Some (kind, d))"
      then obtain k d where "parseMessage_body rt raw = Returns (Some (k, d))" by blast
      from parseMessage_body_Some [OF this] obtain m ev dat v where
        f: "raw \<noteq> []" "trim raw \<noteq> []" "JSON_parse rt raw = Returns m"
           "get_prop m ''event'' = Returns ev" "truthy ev" "is_pusher_event ev = Returns False"
           "ev \<noteq> JStr []" "get_prop m ''data'' = Returns dat" "dat \<noteq> JUndefined"
           "dat \<noteq> JStr []" "JSON_parse_value rt dat = Returns v"
           "parse_event ev v = Returns (Some (k, d))"
        by blast
      from that [OF f(1-3) get_prop_own [OF f(4)] f(5-7) get_prop_own [OF f(8)] f(9-12)]
      show ?thesis ..
    qed
  qed
  have c1: "\<exists>r. parseMessage rt raw = Returns r" by (rule parseMessage_returns)
  have c2: "parseMessage rt raw = Returns None" if "list_all js_whitespace raw"
    using that by (intro null) (simp add: trim_empty_iff)
  have c3: "parseMessage rt raw = Returns None" if "JSON_parse rt raw = Throws e"
    using that by (intro null) simp
  have c4: "parseMessage rt raw = Returns None"
    if "JSON_parse rt raw = Returns message
        \<and> (own message ''event'' = JUndefined \<or> own message ''data'' = JUndefined)"
    using that by (intro null) auto
  have c5: "parseMessage rt raw = Returns None"
    if "JSON_parse rt raw = Returns message \<and> own message ''event'' = JStr name
        \<and> (prefix ''pusher:'' name \<or> prefix ''pusher_internal:'' name)"
    using that by (intro null) (auto simp: is_pusher_event_def split: if_splits)
  have c6: "parseMessage rt raw = Returns None"
    if "JSON_parse rt raw = Returns message
        \<and> (own message ''event'' = JStr [] \<or> own message ''data'' = JStr [])"
    using that by (intro null) auto
  have c7: "parseMessage rt raw = Returns None"
    if "JSON_parse rt raw = Returns message
        \<and> JSON_parse_value rt (own message ''data'') = Throws e"
    using that by (intro null) auto
  have c8: "parseMessage rt raw = Returns None"
    if "JSON_parse rt raw = Returns message
        \<and> (\<forall>n. own message ''event'' = JStr n \<longrightarrow> map_of eventTypeMap n = None)"
    using that by (intro null) (auto dest!: parse_event_kind)
  have c9: "\<exists>d. parseMessage rt raw = Returns (Some (kind, d))"
    if "\<not> list_all js_whitespace raw \<and> JSON_parse rt raw = Returns message
        \<and> own message ''event'' = JStr name \<and> map_of eventTypeMap name = Some kind
        \<and> own message ''data'' = JStr payload_text \<and> payload_text \<noteq> []
        \<and> JSON_parse rt payload_text = Returns payload \<and> well_formed_payload kind payload"
    using that parseMessage_recognized [of raw rt message name kind payload_text payload] by blast
  from c1 c2 c3 c4 c5 c6 c7 c8 c9 show ?thesis by blast
qed


theorem parseMessage_never_throws_witness:
  "list_all js_whitespace ''  '' \<and> parseMessage example_runtime ''  '' = Returns None
   \<and> JSON_parse example_runtime ''invalid json'' = Throws ''SyntaxError''
   \<and> parseMessage example_runtime ''invalid json'' = Returns None
   \<and> JSON_parse example_runtime no_data_frame = Returns (JObj [(''event'', JStr ''test'')])
   \<and> parseMessage example_runtime no_data_frame = Returns None
   \<and> prefix ''pusher_internal:'' ''pusher_internal:subscription_succeeded''
   \<and> parseMessage example_runtime system_frame = Returns None
   \<and> parseMessage example_runtime empty_frame = Returns None
   \<and> JSON_parse_value example_runtime (JStr ''not json'') = Throws ''SyntaxError''
   \<and> parseMessage example_runtime bad_data_frame = Returns None
   \<and> map_of eventTypeMap (app_event ''FollowersUpdated'') = None
   \<and> parseMessage example_runtime unknown_frame = Returns None
   \<and> well_formed_payload ''UserBanned'' (JObj [(''username'', JStr ''bob'')])
   \<and> (\<exists>d. parseMessage example_runtime ban_frame = Returns (Some (''UserBanned'', d)))
   \<and> well_formed_payload ''ChatMessage'' chat_object
   \<and> (\<exists>d. parseMessage example_runtime chat_frame = Returns (Some (''ChatMessage'', d)))"
proof -
  note T = parseMessage_never_throws [where rt = example_runtime]
  have h2: "list_all js_whitespace ''  ''" by (simp add: js_whitespace_def)
  have h3: "JSON_parse example_runtime ''invalid json'' = Throws ''SyntaxError''"
    by (simp add: example_eval)
  have h4: "JSON_parse example_runtime no_data_frame = Returns (JObj [(''event'', JStr ''test'')])"
    "own (JObj [(''event'', JStr ''test'')]) ''data'' = JUndefined"
    by (simp_all add: example_eval own_def)
  have h5: "JSON_parse example_runtime system_frame
              = Returns (JObj [(''event'', JStr ''pusher_internal:subscription_succeeded''),
                               (''data'', JStr ''{}'')])"
    "own (JObj [(''event'', JStr ''pusher_internal:subscription_succeeded''), (''data'', JStr ''{}'')])
       ''event'' = JStr ''pusher_internal:subscription_succeeded''"
    "prefix ''pusher_internal:'' ''pusher_internal:subscription_succeeded''"
    by (simp_all add: example_eval own_def)
  have h6: "JSON_parse example_runtime empty_frame = Returns (JObj [(''event'', JStr []), (''data'', JStr [])])"
    "own (JObj [(''event'', JStr []), (''data'', JStr [])]) ''event'' = JStr []"
    by (simp_all add: example_eval own_def)
  have h7: "JSON_parse example_runtime bad_data_frame
              = Returns (JObj [(''event'', JStr (app_event ''UserBannedEvent'')), (''data'', JStr ''not json'')])"
    "own (JObj [(''event'', JStr (app_event ''UserBannedEvent'')), (''data'', JStr ''not json'')]) ''data''
       = JStr ''not json''"
    "JSON_parse_value example_runtime (JStr ''not json'') = Throws ''SyntaxError''"
    by (simp_all add: example_eval own_def)
  have h8: "JSON_parse example_runtime unknown_frame
              = Returns (JObj [(''event'', JStr (app_event ''FollowersUpdated'')), (''data'', JStr ''{}'')])"
    "own (JObj [(''event'', JStr (app_event ''FollowersUpdated'')), (''data'', JStr ''{}'')]) ''event''
       = JStr (app_event ''FollowersUpdated'')"
    "map_of eventTypeMap (app_event ''FollowersUpdated'') = None"
    by (simp_all add: example_eval own_def eventTypeMap_def)
  have h9: "\<not> list_all js_whitespace ban_frame"
    "JSON_parse example_runtime ban_frame
       = Returns (JObj [(''event'', JStr (app_event ''UserBannedEvent'')), (''data'', JStr ban_payload)])"
    "own (JObj [(''event'', JStr (app_event ''UserBannedEvent'')), (''data'', JStr ban_payload)]) ''event''
       = JStr (app_event ''UserBannedEvent'')"
    "own (JObj [(''event'', JStr (app_event ''UserBannedEvent'')), (''data'', JStr ban_payload)]) ''data''
       = JStr ban_payload"
    "ban_payload \<noteq> []"
    "JSON_parse example_runtime ban_payload = Returns (JObj [(''username'', JStr ''bob'')])"
    "well_formed_payload ''UserBanned'' (JObj [(''username'', JStr ''bob'')])"
    by (simp_all add: example_eval own_def js_whitespace_def well_formed_payload_simps
        RawUserBannedData_def optional_def)
  have h10: "\<not> list_all js_whitespace chat_frame"
    "JSON_parse example_runtime chat_frame
       = Returns (JObj [(''event'', JStr (app_event ''ChatMessageEvent'')), (''data'', JStr chat_payload)])"
    "own (JObj [(''event'', JStr (app_event ''ChatMessageEvent'')), (''data'', JStr chat_payload)]) ''event''
       = JStr (app_event ''ChatMessageEvent'')"
    "own (JObj [(''event'', JStr (app_event ''ChatMessageEvent'')), (''data'', JStr chat_payload)]) ''data''
       = JStr chat_payload"
    "chat_payload \<noteq> []"
    "JSON_parse example_runtime chat_payload = Returns chat_object"
    "well_formed_payload ''ChatMessage'' chat_object"
    by (simp_all add: example_eval own_def js_whitespace_def well_formed_payload_simps
        RawChatMessageData_def optional_def chat_object_def)
  have c2: "parseMessage example_runtime ''  '' = Returns None"
    using T [of "''  ''", THEN conjunct2, THEN conjunct1] h2 by (rule mp)
  have c3: "parseMessage example_runtime ''invalid json'' = Returns None"
    using T [of "''invalid json''", THEN conjunct2, THEN conjunct2, THEN conjunct1] h3 by (rule mp)
  have c4: "parseMessage example_runtime no_data_frame = Returns None"
    using T [of no_data_frame, THEN conjunct2, THEN conjunct2, THEN conjunct2, THEN conjunct1]
    by (rule mp) (rule conjI, rule h4(1), rule disjI2, rule h4(2))
  have c5: "parseMessage example_runtime system_frame = Returns None"
    using T [of system_frame, THEN conjunct2, THEN conjunct2, THEN conjunct2, THEN conjunct2, THEN conjunct1]
    by (rule mp) (rule conjI, rule h5(1), rule conjI, rule h5(2), rule disjI2, rule h5(3))
  have c6: "parseMessage example_runtime empty_frame = Returns None"
    using T [of empty_frame, THEN conjunct2, THEN conjunct2, THEN conjunct2, THEN conjunct2, THEN conjunct2, THEN conjunct1]
    by (rule mp) (rule conjI, rule h6(1), rule disjI1, rule h6(2))
  have c7: "parseMessage example_runtime bad_data_frame = Returns None"
    using T [of bad_data_frame, THEN conjunct2, THEN conjunct2, THEN conjunct2, THEN conjunct2, THEN conjunct2, THEN conjunct2, THEN conjunct1]
    by (rule mp) (rule conjI, rule h7(1), simp only: h7(2), rule h7(3))
  have c8: "parseMessage example_runtime unknown_frame = Returns None"
    using T [of unknown_frame, THEN conjunct2, THEN conjunct2, THEN conjunct2, THEN conjunct2, THEN conjunct2, THEN conjunct2, THEN conjunct2, THEN conjunct1]
    by (rule mp) (rule conjI, rule h8(1), simp only: h8(2) jsv.inject, simp add: h8(3))
  have c9: "\<exists>d. parseMessage example_runtime ban_frame = Returns (Some (''UserBanned'', d))"
    using T [of ban_frame, THEN conjunct2, THEN conjunct2, THEN conjunct2, THEN conjunct2, THEN conjunct2, THEN conjunct2, THEN conjunct2, THEN conjunct2]
    by (rule mp) (intro conjI, rule h9(1), rule h9(2), rule h9(3),
        rule map_of_eventTypeMap_simps(3), rule h9(4), rule h9(5), rule h9(6), rule h9(7))
  have c10: "\<exists>d. parseMessage example_runtime chat_frame = Returns (Some (''ChatMessage'', d))"
    using T [of chat_frame, THEN conjunct2, THEN conjunct2, THEN conjunct2, THEN conjunct2, THEN conjunct2, THEN conjunct2, THEN conjunct2, THEN conjunct2]
    by (rule mp) (intro conjI, rule h10(1), rule h10(2), rule h10(3),
        rule map_of_eventTypeMap_simps(1), rule h10(4), rule h10(5), rule h10(6), rule h10(7))
  show ?thesis
    by (intro conjI) (fact h2 h3 h4(1) h5(3) h7(3) h8(3) h9(7) h10(7) c2 c3 c4 c5 c6 c7 c8 c9 c10)+
qed

section \<open>The content of a decoded chat message\<close>

lemma parse_event_chat:
  "parse_event (JStr (app_event ''ChatMessageEvent'')) v
     = obind (parseChatMessage v) (\<lambda>d. Returns (Some (''ChatMessage'', d)))"
  by (simp add: parse_event_def)

lemma parse_event_ChatMessage:
  assumes "parse_event event v = Returns (Some (''ChatMessage'', d))"
  shows "event = JStr (app_event ''ChatMessageEvent'') \<and> parseChatMessage v = Returns d"
proof -
  have k: "obind m (\<lambda>d. Returns (Some (K, d))) = Returns (Some (K', d')) \<Longrightarrow> K' = K \<and> m = Returns d'"
    for m :: "jsv outcome" and K K' :: string and d'
    by (cases m) simp_all
  show ?thesis
    using assms unfolding parse_event_def
    by (auto split: if_splits dest!: k)
qed

lemma parseMessage_ChatMessage:
  assumes "parseMessage rt raw = Returns (Some (''ChatMessage'', d))"
  shows "\<exists>message payload c cleaned.
           JSON_parse rt raw = Returns message
         \<and> own message ''event'' = JStr (app_event ''ChatMessageEvent'')
         \<and> JSON_parse_value rt (own message ''data'') = Returns payload
         \<and> get_prop payload ''content'' = Returns c
         \<and> cleanEmotes c = Returns cleaned
         \<and> get_prop d ''content'' = Returns cleaned"
proof -
  from assms have "parseMessage_body rt raw = Returns (Some (''ChatMessage'', d))"
    by (simp add: parseMessage_Some_body)
  from parseMessage_body_Some [OF this] obtain message event data eventData where
    b: "JSON_parse rt raw = Returns message" "get_prop message ''event'' = Returns event"
       "get_prop message ''data'' = Returns data" "JSON_parse_value rt data = Returns eventData"
       "parse_event event eventData = Returns (Some (''ChatMessage'', d))"
    by blast
  from parse_event_ChatMessage [OF b(5)] have
    e: "event = JStr (app_event ''ChatMessageEvent'')" "parseChatMessage eventData = Returns d"
    by blast+
  from parseChatMessage_content [OF e(2)] obtain c cleaned where
    c: "get_prop eventData ''content'' = Returns c" "cleanEmotes c = Returns cleaned"
       "get_prop d ''content'' = Returns cleaned"
    by blast
  from get_prop_own [OF b(2)] get_prop_own [OF b(3)] e(1)
  have "own message ''event'' = JStr (app_event ''ChatMessageEvent'')" "data = own message ''data''"
    by simp_all
  with b(1,4) c show ?thesis by blast
qed

lemma parseMessage_chat_content:
  assumes "\<not> list_all js_whitespace raw" and "JSON_parse rt raw = Returns message"
    and "own message ''event'' = JStr (app_event ''ChatMessageEvent'')"
    and "own message ''data'' = JStr payload_text" and "payload_text \<noteq> []"
    and "JSON_parse rt payload_text = Returns payload" and "RawChatMessageData payload"
    and "own payload ''content'' = JStr s0"
  shows "\<exists>d. parseMessage rt raw = Returns (Some (''ChatMessage'', d))
             \<and> get_prop d ''content'' = Returns (JStr (replace_emotes s0))"
proof -
  from assms(7) have wf: "well_formed_payload ''ChatMessage'' payload"
    by (simp add: well_formed_payload_simps)
  from parseMessage_recognized
         [OF assms(1,2,3) map_of_eventTypeMap_simps(1) assms(4,5,6) wf]
  obtain d where d: "parseMessage rt raw = Returns (Some (''ChatMessage'', d))" ..
  from parseMessage_ChatMessage [OF d] obtain payload' c cleaned where
    p: "JSON_parse_value rt (own message ''data'') = Returns payload'"
       "get_prop payload' ''content'' = Returns c" "cleanEmotes c = Returns cleaned"
       "get_prop d ''content'' = Returns cleaned"
    using assms(2) by auto
  from p(1) assms(4,6) have "payload' = payload" by (simp add: JSON_parse_value_def)
  with p(2) get_prop_own [of payload "''content''" c] assms(8) have "c = JStr s0" by simp
  with p(3) have "cleaned = JStr (replace_emotes s0)" by (simp add: cleanEmotes_simps)
  with d p(4) show ?thesis by blast
qed

lemma example_chat_decodes:
  "parseMessage example_runtime chat_frame
     = Returns (Some (''ChatMessage'',
         JObj [(''id'', JStr ''m1''),
               (''content'', JStr ''Hi Kappa there Pog''),
               (''type'', JStr ''message''),
               (''created_at'', JStr ''t''),
               (''sender'', JObj
                  [(''id'', JNum 7),
                   (''username'', JStr ''testuser''),
                   (''slug'', JStr ''testuser''),
                   (''identity'', JObj
                      [(''color'', JStr ''#ffffff''), (''badges'', JArr [])])]),
               (''chatroom'', JObj [(''id'', JNum 0)])]))"
  by (simp add: example_eval parseChatMessage_def chat_object_def cleanEmotes_def js_or_def
      match_emote_def many1_def is_digit_def is_word_def)


text \<open>
  C9. The content of a decoded chat message is \<^verbatim>\<open>cleanEmotes\<close> of the content of the
  payload: whenever \<^verbatim>\<open>parseMessage\<close> returns a \<^verbatim>\<open>ChatMessage\<close>, its content is what
  \<^verbatim>\<open>cleanEmotes\<close> returns on the content of the payload in the data field, and a
  chat frame whose payload has the shape of \<^verbatim>\<open>RawChatMessageData\<close> decodes to a
  \<^verbatim>\<open>ChatMessage\<close> whose content is the replacement applied to the content string. On a
  string the replacement is global: every placeholder \<^verbatim>\<open>[emote:<id>:<name>]\<close> with a
  non-empty id of digits and a non-empty name of word characters is replaced by the name,
  wherever it stands, and nothing is escaped; the example of the specification comes
  out as stated, through the decoder and on the string; a string that contains no
  placeholder comes back as it is; and empty or absent content gives the empty string.
\<close>

theorem cleanEmotes_replaces_placeholders:
  "(parseMessage rt raw = Returns (Some (''ChatMessage'', d)) \<longrightarrow>
      (\<exists>message payload c cleaned.
          JSON_parse rt raw = Returns message
        \<and> own message ''event'' = JStr (app_event ''ChatMessageEvent'')
        \<and> JSON_parse_value rt (own message ''data'') = Returns payload
        \<and> get_prop payload ''content'' = Returns c
        \<and> cleanEmotes c = Returns cleaned
        \<and> get_prop d ''content'' = Returns cleaned))
   \<and> (\<not> list_all js_whitespace raw \<and> JSON_parse rt raw = Returns envelope
        \<and> own envelope ''event'' = JStr (app_event ''ChatMessageEvent'')
        \<and> own envelope ''data'' = JStr payload_text \<and> payload_text \<noteq> []
        \<and> JSON_parse rt payload_text = Returns chat \<and> RawChatMessageData chat
        \<and> own chat ''content'' = JStr content
      \<longrightarrow> (\<exists>decoded. parseMessage rt raw = Returns (Some (''ChatMessage'', decoded))
              \<and> get_prop decoded ''content'' = Returns (JStr (replace_emotes content))))
   \<and> parseMessage example_runtime chat_frame
       = Returns (Some (''ChatMessage'',
           JObj [(''id'', JStr ''m1''),
                 (''content'', JStr ''Hi Kappa there Pog''),
                 (''type'', JStr ''message''),
                 (''created_at'', JStr ''t''),
                 (''sender'', JObj
                    [(''id'', JNum 7),
                     (''username'', JStr ''testuser''),
                     (''slug'', JStr ''testuser''),
                     (''identity'', JObj
                        [(''color'', JStr ''#ffffff''), (''badges'', JArr [])])]),
                 (''chatroom'', JObj [(''id'', JNum 0)])]))
   \<and> (parseChatMessage data = Returns r \<longrightarrow>
        (\<exists>c cleaned. get_prop data ''content'' = Returns c \<and> cleanEmotes c = Returns cleaned
                    \<and> get_prop r ''content'' = Returns cleaned))
   \<and> cleanEmotes (JStr s) = Returns (JStr (replace_emotes s))
   \<and> (emote_parts ident name \<longrightarrow>
        replace_emotes (pre @ placeholder ident name @ post)
          = replace_emotes pre @ name @ replace_emotes post)
   \<and> replace_emotes ''Hi [emote:1:Kappa] there [emote:2:Pog]'' = ''Hi Kappa there Pog''
   \<and> (\<not> has_placeholder s \<longrightarrow> replace_emotes s = s)
   \<and> cleanEmotes (JStr []) = Returns (JStr [])
   \<and> cleanEmotes JUndefined = Returns (JStr [])
   \<and> cleanEmotes JNull = Returns (JStr [])"
proof (intro conjI impI)
  show "replace_emotes ''Hi [emote:1:Kappa] there [emote:2:Pog]'' = ''Hi Kappa there Pog''"
    by (simp add: match_emote_def many1_def is_digit_def is_word_def)
  show "\<exists>c cleaned. get_prop data ''content'' = Returns c \<and> cleanEmotes c = Returns cleaned
                  \<and> get_prop r ''content'' = Returns cleaned"
    if "parseChatMessage data = Returns r"
    using that by (rule parseChatMessage_content)
  show "\<exists>message payload c cleaned.
          JSON_parse rt raw = Returns message
        \<and> own message ''event'' = JStr (app_event ''ChatMessageEvent'')
        \<and> JSON_parse_value rt (own message ''data'') = Returns payload
        \<and> get_prop payload ''content'' = Returns c
        \<and> cleanEmotes c = Returns cleaned
        \<and> get_prop d ''content'' = Returns cleaned"
    if "parseMessage rt raw = Returns (Some (''ChatMessage'', d))"
    using that by (rule parseMessage_ChatMessage)
  show "\<exists>decoded. parseMessage rt raw = Returns (Some (''ChatMessage'', decoded))
              \<and> get_prop decoded ''content'' = Returns (JStr (replace_emotes content))"
    if "\<not> list_all js_whitespace raw \<and> JSON_parse rt raw = Returns envelope
        \<and> own envelope ''event'' = JStr (app_event ''ChatMessageEvent'')
        \<and> own envelope ''data'' = JStr payload_text \<and> payload_text \<noteq> []
        \<and> JSON_parse rt payload_text = Returns chat \<and> RawChatMessageData chat
        \<and> own chat ''content'' = JStr content"
    using that parseMessage_chat_content [of raw rt envelope payload_text chat content]
    by blast
  show "parseMessage example_runtime chat_frame
       = Returns (Some (''ChatMessage'',
           JObj [(''id'', JStr ''m1''),
                 (''content'', JStr ''Hi Kappa there Pog''),
                 (''type'', JStr ''message''),
                 (''created_at'', JStr ''t''),
                 (''sender'', JObj
                    [(''id'', JNum 7),
                     (''username'', JStr ''testuser''),
                     (''slug'', JStr ''testuser''),
                     (''identity'', JObj
                        [(''color'', JStr ''#ffffff''), (''badges'', JArr [])])]),
                 (''chatroom'', JObj [(''id'', JNum 0)])]))"
    by (rule example_chat_decodes)
qed (simp_all add: cleanEmotes_simps replace_emotes_placeholder replace_emotes_unchanged)

theorem cleanEmotes_replaces_placeholders_witness:
  "\<not> list_all js_whitespace chat_frame
   \<and> JSON_parse example_runtime chat_frame
       = Returns (JObj [(''event'', JStr (app_event ''ChatMessageEvent'')),
                        (''data'', JStr chat_payload)])
   \<and> chat_payload \<noteq> []
   \<and> JSON_parse example_runtime chat_payload = Returns chat_object
   \<and> RawChatMessageData chat_object
   \<and> own chat_object ''content'' = JStr ''Hi [emote:1:Kappa] there [emote:2:Pog]''
   \<and> (\<exists>decoded. parseMessage example_runtime chat_frame = Returns (Some (''ChatMessage'', decoded))
          \<and> get_prop decoded ''content'' = Returns (JStr ''Hi Kappa there Pog''))
   \<and> (\<exists>r. parseChatMessage chat_object = Returns r
          \<and> get_prop r ''content'' = Returns (JStr ''Hi Kappa there Pog''))
   \<and> emote_parts ''1'' ''Kappa''
   \<and> replace_emotes (''Hi '' @ placeholder ''1'' ''Kappa'' @ '' there'') = ''Hi Kappa there''
   \<and> \<not> has_placeholder ''Hello world!''
   \<and> replace_emotes ''Hello world!'' = ''Hello world!''"
proof -
  note T = cleanEmotes_replaces_placeholders
  let ?env = "JObj [(''event'', JStr (app_event ''ChatMessageEvent'')), (''data'', JStr chat_payload)]"
  let ?content = "''Hi [emote:1:Kappa] there [emote:2:Pog]''"
  have f: "\<not> list_all js_whitespace chat_frame"
    "JSON_parse example_runtime chat_frame = Returns ?env"
    "own ?env ''event'' = JStr (app_event ''ChatMessageEvent'')"
    "own ?env ''data'' = JStr chat_payload"
    "chat_payload \<noteq> []"
    "JSON_parse example_runtime chat_payload = Returns chat_object"
    "RawChatMessageData chat_object"
    "own chat_object ''content'' = JStr ?content"
    by (simp_all add: example_eval own_def js_whitespace_def RawChatMessageData_def
        optional_def chat_object_def)
  have ex: "replace_emotes ?content = ''Hi Kappa there Pog''"
    by (rule T [THEN conjunct2, THEN conjunct2, THEN conjunct2, THEN conjunct2, THEN conjunct2,
                THEN conjunct2, THEN conjunct1])
  have "\<exists>decoded. parseMessage example_runtime chat_frame = Returns (Some (''ChatMessage'', decoded))
          \<and> get_prop decoded ''content'' = Returns (JStr (replace_emotes ?content))"
    using T [of example_runtime chat_frame, THEN conjunct2, THEN conjunct1]
    by (rule mp) (intro conjI, rule f(1), rule f(2), rule f(3), rule f(4), rule f(5),
        rule f(6), rule f(7), rule f(8))
  then have w1: "\<exists>decoded. parseMessage example_runtime chat_frame
                     = Returns (Some (''ChatMessage'', decoded))
          \<and> get_prop decoded ''content'' = Returns (JStr ''Hi Kappa there Pog'')"
    unfolding ex .
  obtain r where r: "parseChatMessage chat_object = Returns r"
    by (simp add: parseChatMessage_def chat_object_def cleanEmotes_def js_or_def)
  have c: "get_prop chat_object ''content'' = Returns (JStr ?content)"
    by (simp add: chat_object_def)
  from T [where data = chat_object and r = r, THEN conjunct2, THEN conjunct2, THEN conjunct2,
          THEN conjunct1] r
  obtain c' cleaned where "get_prop chat_object ''content'' = Returns c'"
      "cleanEmotes c' = Returns cleaned" "get_prop r ''content'' = Returns cleaned"
    by blast
  with c ex have "get_prop r ''content'' = Returns (JStr ''Hi Kappa there Pog'')"
    by (simp add: cleanEmotes_simps)
  with r have w2: "\<exists>r. parseChatMessage chat_object = Returns r
          \<and> get_prop r ''content'' = Returns (JStr ''Hi Kappa there Pog'')"
    by blast
  have e: "emote_parts ''1'' ''Kappa''"
    by (simp add: emote_parts_def is_digit_def is_word_def)
  have n: "\<not> has_placeholder ''Hello world!''" "\<not> has_placeholder ''Hi ''"
    "\<not> has_placeholder '' there''"
    by (rule no_bracket_no_placeholder, simp)+
  note U = T [THEN conjunct2, THEN conjunct2, THEN conjunct2, THEN conjunct2, THEN conjunct2,
              THEN conjunct2, THEN conjunct2, THEN conjunct1]
  from U [of "''Hello world!''"] n(1)
  have w5: "replace_emotes ''Hello world!'' = ''Hello world!''" by (rule mp)
  from U [of "''Hi ''"] n(2) have u1: "replace_emotes ''Hi '' = ''Hi ''" by (rule mp)
  from U [of "'' there''"] n(3) have u2: "replace_emotes '' there'' = '' there''" by (rule mp)
  from T [where ident = "''1''" and name = "''Kappa''" and pre = "''Hi ''" and post = "'' there''",
          THEN conjunct2, THEN conjunct2, THEN conjunct2, THEN conjunct2, THEN conjunct2,
          THEN conjunct1] e
  have "replace_emotes (''Hi '' @ placeholder ''1'' ''Kappa'' @ '' there'')
        = replace_emotes ''Hi '' @ ''Kappa'' @ replace_emotes '' there''"
    by (rule mp)
  then have w4: "replace_emotes (''Hi '' @ placeholder ''1'' ''Kappa'' @ '' there'') = ''Hi Kappa there''"
    unfolding u1 u2 by simp
  show ?thesis
    by (intro conjI) (fact f(1) f(2) f(5) f(6) f(7) f(8) w1 w2 e w4 n(1) w5)+
qed

section \<open>The message pipeline\<close>

lemma trace_act [simp]: "trace (act a s) = trace s @ [a]"
  by (simp add: act_def)

lemma handleMessage_trace:
  "trace (handleMessage rt raw s) =
     trace s @ [Emit ''rawMessage'' (JStr raw)]
       @ (if enableBuffer (options s) then [Buffered raw] else [])
       @ (if try_catch (is_system_frame rt raw) (\<lambda>e. Returns False) = Returns True then []
          else case extractEventType rt raw of
                 Returns (Some (JStr eventType)) \<Rightarrow>
                   if eventType \<noteq> [] \<and> isEventFiltered (options s) eventType then []
                   else (case parseMessage rt raw of
                           Returns (Some (type, data)) \<Rightarrow> [Emit type data] | _ \<Rightarrow> [])
               | _ \<Rightarrow> (case parseMessage rt raw of
                           Returns (Some (type, data)) \<Rightarrow> [Emit type data] | _ \<Rightarrow> []))"
  by (simp add: handleMessage_def Let_def emit_event_def act_def
      split: outcome.splits option.splits jsv.splits prod.splits)

text \<open>
  C2. What \<^verbatim>\<open>handleMessage\<close> adds to the record of actions starts with the publish of
  \<^verbatim>\<open>rawMessage\<close> with the frame as it came; the append to the buffer, when buffering is
  on, comes next; a publish of the decoded event, if there is one, comes last and is
  the only other publish. With a filter list that is not empty, a frame whose decoded
  kind is not in the list adds the \<^verbatim>\<open>rawMessage\<close> publish (and the append) and nothing
  else: no publish under the kind.
\<close>

theorem handleMessage_raw_first_filter_gates:
  "(\<exists>decoded.
      trace (handleMessage rt raw s) =
        trace s @ [Emit ''rawMessage'' (JStr raw)]
          @ (if enableBuffer (options s) then [Buffered raw] else []) @ decoded
      \<and> (decoded = []
          \<or> (\<exists>kind d. decoded = [Emit kind d] \<and> parseMessage rt raw = Returns (Some (kind, d)))))
   \<and> (filteredEvents (options s) \<noteq> []
        \<and> parseMessage rt raw = Returns (Some (kind, d))
        \<and> kind \<notin> set (filteredEvents (options s))
      \<longrightarrow> trace (handleMessage rt raw s) =
            trace s @ [Emit ''rawMessage'' (JStr raw)]
              @ (if enableBuffer (options s) then [Buffered raw] else [])
          \<and> (\<forall>x. Emit kind x \<notin> set (drop (length (trace s)) (trace (handleMessage rt raw s)))))"
proof (intro conjI impI)
  show "\<exists>decoded.
      trace (handleMessage rt raw s) =
        trace s @ [Emit ''rawMessage'' (JStr raw)]
          @ (if enableBuffer (options s) then [Buffered raw] else []) @ decoded
      \<and> (decoded = []
          \<or> (\<exists>kind d. decoded = [Emit kind d] \<and> parseMessage rt raw = Returns (Some (kind, d))))"
    unfolding handleMessage_trace
    by (auto split: outcome.splits option.splits jsv.splits prod.splits)
next
  assume a: "filteredEvents (options s) \<noteq> []
        \<and> parseMessage rt raw = Returns (Some (kind, d))
        \<and> kind \<notin> set (filteredEvents (options s))"
  then obtain name where n: "extractEventType rt raw = Returns (Some (JStr name))" "name \<noteq> []"
      "map_of eventTypeMap name = Some kind"
    using parseMessage_extractEventType by blast
  from a n have f: "isEventFiltered (options s) name"
    by (simp add: isEventFiltered_def)
  have raw: "kind \<noteq> ''rawMessage''"
    using n(3) by (auto simp: eventTypeMap_def split: if_splits)
  show t: "trace (handleMessage rt raw s) =
            trace s @ [Emit ''rawMessage'' (JStr raw)]
              @ (if enableBuffer (options s) then [Buffered raw] else [])"
    unfolding handleMessage_trace using n f by simp
  show "\<forall>x. Emit kind x \<notin> set (drop (length (trace s)) (trace (handleMessage rt raw s)))"
    unfolding t using raw by auto
qed

theorem handleMessage_raw_first_filter_gates_witness:
  "filteredEvents (options (new_manager (default_options\<lparr>filteredEvents := [''ChatMessage'']\<rparr>))) \<noteq> []
   \<and> parseMessage example_runtime ban_frame
       = Returns (Some (''UserBanned'', JObj [(''username'', JStr ''bob''), (''type'', JStr ''user_banned'')]))
   \<and> ''UserBanned'' \<notin> set (filteredEvents (options (new_manager (default_options\<lparr>filteredEvents := [''ChatMessage'']\<rparr>))))
   \<and> trace (handleMessage example_runtime ban_frame
        (new_manager (default_options\<lparr>filteredEvents := [''ChatMessage'']\<rparr>)))
       = [Emit ''rawMessage'' (JStr ban_frame)]"
  using handleMessage_raw_first_filter_gates
    [of example_runtime ban_frame "new_manager (default_options\<lparr>filteredEvents := [''ChatMessage'']\<rparr>)"
        "''UserBanned''" "JObj [(''username'', JStr ''bob''), (''type'', JStr ''user_banned'')]"]
    example_ban_decodes
  by (simp add: new_manager_def default_options_def)

section \<open>Reconnecting and disconnecting\<close>

lemma handleMessage_fields:
  "\<exists>b t. handleMessage rt raw s = s\<lparr>messageBuffer := b, trace := trace s @ t\<rparr>
         \<and> (\<forall>a \<in> set t. \<not> starts_attempt a)"
proof -
  let ?s1 = "emit_event ''rawMessage'' (JStr raw) s"
  let ?s2 = "(if enableBuffer (options ?s1)
              then act (Buffered raw) (?s1\<lparr>messageBuffer := addToBuffer (options ?s1) raw (messageBuffer ?s1)\<rparr>)
              else ?s1)"
  have s2: "\<exists>b. ?s2 = s\<lparr>messageBuffer := b,
                trace := trace s @ [Emit ''rawMessage'' (JStr raw)]
                  @ (if enableBuffer (options s) then [Buffered raw] else [])\<rparr>"
    by (auto simp: emit_event_def act_def intro: exI [of _ "messageBuffer s"])
  then obtain b where b: "?s2 = s\<lparr>messageBuffer := b,
                trace := trace s @ [Emit ''rawMessage'' (JStr raw)]
                  @ (if enableBuffer (options s) then [Buffered raw] else [])\<rparr>" ..
  have gen: "(if c then s2
              else case e of
                     Returns (Some (JStr eventType)) \<Rightarrow>
                       if eventType \<noteq> [] \<and> isEventFiltered (options s2) eventType then s2
                       else (case p of Returns (Some (type, data)) \<Rightarrow> emit_event type data s2
                             | _ \<Rightarrow> s2)
                   | _ \<Rightarrow> (case p of Returns (Some (type, data)) \<Rightarrow> emit_event type data s2
                           | _ \<Rightarrow> s2)) = s2
             \<or> (\<exists>k d. (if c then s2
              else case e of
                     Returns (Some (JStr eventType)) \<Rightarrow>
                       if eventType \<noteq> [] \<and> isEventFiltered (options s2) eventType then s2
                       else (case p of Returns (Some (type, data)) \<Rightarrow> emit_event type data s2
                             | _ \<Rightarrow> s2)
                   | _ \<Rightarrow> (case p of Returns (Some (type, data)) \<Rightarrow> emit_event type data s2
                           | _ \<Rightarrow> s2)) = emit_event k d s2)"
    for c s2 and e :: "jsv option outcome" and p :: "(string \<times> jsv) option outcome"
    by (auto split: outcome.splits option.splits jsv.splits prod.splits)
  have "handleMessage rt raw s = ?s2 \<or> (\<exists>k d. handleMessage rt raw s = emit_event k d ?s2)"
    unfolding handleMessage_def Let_def by (rule gen)
  then show ?thesis
  proof
    assume "handleMessage rt raw s = ?s2"
    with b show ?thesis
      by (intro exI [of _ b] exI [of _ "[Emit ''rawMessage'' (JStr raw)]
                  @ (if enableBuffer (options s) then [Buffered raw] else [])"]) simp
  next
    assume "\<exists>k d. handleMessage rt raw s = emit_event k d ?s2"
    then obtain k d where "handleMessage rt raw s = emit_event k d ?s2" by blast
    with b show ?thesis
      by (intro exI [of _ b] exI [of _ "[Emit ''rawMessage'' (JStr raw)]
                  @ (if enableBuffer (options s) then [Buffered raw] else []) @ [Emit k d]"])
         (simp add: emit_event_def act_def)
  qed
qed


lemma tracked_filter:
  "timers_tracked s \<Longrightarrow> reconnectTimer s = Some t \<Longrightarrow> filter (\<lambda>(t', d). t' \<noteq> t) (timers s) = []"
  by (auto simp: timers_tracked_def filter_empty_conv)

lemma tracked_no_timer:
  "timers_tracked s \<Longrightarrow> reconnectTimer s = None \<Longrightarrow> timers s = []"
  by (cases "timers s") (auto simp: timers_tracked_def)

lemma tracked_fired:
  "timers_tracked s \<Longrightarrow> t \<in> fst ` set (timers s) \<Longrightarrow> filter (\<lambda>(t', d). t' \<noteq> t) (timers s) = []"
proof -
  assume tr: "timers_tracked s" and "t \<in> fst ` set (timers s)"
  then obtain d where "(t, d) \<in> set (timers s)" by auto
  with tr have r: "reconnectTimer s = Some t" by (auto simp: timers_tracked_def)
  have "t' = t" if "(t', d') \<in> set (timers s)" for t' d'
    using tr that r by (auto simp: timers_tracked_def)
  then show ?thesis by (auto simp: filter_empty_conv)
qed

lemma scheduleReconnect_fields:
  assumes "timers_tracked s"
  shows "scheduleReconnect s =
           s\<lparr>connectionState := Reconnecting,
             timers := [(next_timer s, reconnectInterval (options s))],
             next_timer := Suc (next_timer s),
             reconnectTimer := Some (next_timer s),
             trace := trace s @ (case reconnectTimer s of Some t \<Rightarrow> [ClearTimeout t] | None \<Rightarrow> [])
                        @ [SetTimeout (next_timer s) (reconnectInterval (options s))]\<rparr>"
proof (cases "reconnectTimer s")
  case None
  with assms have "timers s = []" by (rule tracked_no_timer)
  with None show ?thesis
    by (simp add: scheduleReconnect_def setTimeout_def setConnectionState_def act_def)
next
  case (Some t)
  with assms have "filter (\<lambda>(t', d). t' \<noteq> t) (timers s) = []" by (rule tracked_filter)
  with Some show ?thesis
    by (simp add: scheduleReconnect_def setTimeout_def clearTimeout_def setConnectionState_def act_def)
qed

lemma disconnect_fields:
  assumes "timers_tracked s"
  shows "disconnect s =
           s\<lparr>isManualDisconnect := True, reconnectTimer := None, timers := [], ws := None,
             connectionState := Disconnected,
             sockets := (case ws s of
                           Some sid \<Rightarrow> if sid < length (sockets s) \<and> sockets s ! sid \<in> {CONNECTING, OPEN}
                                       then (sockets s)[sid := CLOSING] else sockets s
                         | None \<Rightarrow> sockets s),
             trace := trace s @ (case reconnectTimer s of Some t \<Rightarrow> [ClearTimeout t] | None \<Rightarrow> [])
                        @ (case ws s of Some sid \<Rightarrow> [Close sid 1000 ''Manual disconnect''] | None \<Rightarrow> [])\<rparr>"
proof (cases "reconnectTimer s")
  case None
  with assms have "timers s = []" by (rule tracked_no_timer)
  with None show ?thesis
    by (cases s; cases "ws s")
       (auto simp: disconnect_def close_socket_def setConnectionState_def act_def Let_def)
next
  case (Some t)
  with assms have "filter (\<lambda>(t', d). t' \<noteq> t) (timers s) = []" by (rule tracked_filter)
  with Some show ?thesis
    by (cases s; cases "ws s")
       (auto simp: disconnect_def close_socket_def clearTimeout_def setConnectionState_def
          act_def Let_def)
qed

lemma timers_tracked_upd [simp]:
  "timers_tracked (s\<lparr>trace := tr\<rparr>) = timers_tracked s"
  "timers_tracked (s\<lparr>connectionState := st\<rparr>) = timers_tracked s"
  "timers_tracked (s\<lparr>messageBuffer := b\<rparr>) = timers_tracked s"
  "timers_tracked (s\<lparr>sockets := so\<rparr>) = timers_tracked s"
  "timers_tracked (s\<lparr>awaiting := aw\<rparr>) = timers_tracked s"
  "timers_tracked (s\<lparr>channelName := n\<rparr>) = timers_tracked s"
  "timers_tracked (s\<lparr>channelId := i\<rparr>) = timers_tracked s"
  "timers_tracked (s\<lparr>ws := w\<rparr>) = timers_tracked s"
  "timers_tracked (s\<lparr>isManualDisconnect := m\<rparr>) = timers_tracked s"
  "timers_tracked (s\<lparr>timers := []\<rparr>)"
  by (simp_all add: timers_tracked_def)

lemma timers_tracked_scheduleReconnect: "timers_tracked s \<Longrightarrow> timers_tracked (scheduleReconnect s)"
  by (simp add: scheduleReconnect_fields) (simp add: timers_tracked_def)

lemma timers_tracked_step:
  assumes "timers_tracked s" and "step rt ev s = Some s'"
  shows "timers_tracked s'"
proof (cases ev)
  case (CallConnect name)
  with assms show ?thesis
    by (auto simp: step_def connect_def performConnection_def setConnectionState_def act_def
        split: if_splits)
next
  case CallDisconnect
  with assms show ?thesis by (auto simp: step_def disconnect_fields)
next
  case (LookupResolved i room)
  with assms show ?thesis
    by (auto simp: step_def performConnection_resolved_def act_def split: if_splits)
next
  case (LookupRejected i err)
  with assms show ?thesis
    by (auto simp: step_def performConnection_rejected_def handleConnectionError_def
        emit_event_def act_def setConnectionState_def Let_def
        intro!: timers_tracked_scheduleReconnect split: if_splits caller.splits)
next
  case (OnOpen sid)
  with assms show ?thesis
    by (auto simp: step_def subscribeToChannel_def emit_event_def act_def setConnectionState_def
        Let_def split: if_splits option.splits)
next
  case (OnMessage sid raw)
  from handleMessage_fields [of rt raw s] obtain b t where
    h: "handleMessage rt raw s = s\<lparr>messageBuffer := b, trace := trace s @ t\<rparr>" by blast
  have "timers_tracked (handleMessage rt raw s)"
    unfolding h using assms(1) by simp
  with OnMessage assms(2) show ?thesis by (auto simp: step_def split: if_splits)
next
  case (OnClose sid code reason)
  with assms show ?thesis
    by (auto simp: step_def handleDisconnect_def emit_event_def act_def setConnectionState_def
        Let_def intro!: timers_tracked_scheduleReconnect split: if_splits)
next
  case (OnError sid err)
  with assms show ?thesis by (auto simp: step_def emit_event_def act_def split: if_splits)
next
  case (TimerFired t)
  with assms have "t \<in> fst ` set (timers s)" by (auto simp: step_def split: if_splits)
  from tracked_fired [OF assms(1) this] TimerFired assms show ?thesis
    by (auto simp: step_def performConnection_def setConnectionState_def act_def split: if_splits)
qed

lemma timers_tracked_run:
  "timers_tracked s \<Longrightarrow> run rt evs s = Some s' \<Longrightarrow> timers_tracked s'"
proof (induction evs arbitrary: s)
  case Nil
  then show ?case by simp
next
  case (Cons ev evs)
  from Cons.prems(2) obtain s1 where s1: "step rt ev s = Some s1" "run rt evs s1 = Some s'"
    by (auto split: option.splits)
  from timers_tracked_step [OF Cons.prems(1) s1(1)] Cons.IH s1(2) show ?case by blast
qed

lemma timers_tracked_reachable:
  "run rt history (new_manager opts) = Some s \<Longrightarrow> timers_tracked s"
  by (rule timers_tracked_run [of "new_manager opts"]) (simp_all add: timers_tracked_def new_manager_def)





subsection \<open>After a disconnect\<close>













lemmas controller_eval =
  step_def connect_def performConnection_def performConnection_resolved_def
  performConnection_rejected_def subscribeToChannel_def disconnect_def close_socket_def
  handleDisconnect_def handleConnectionError_def scheduleReconnect_def setTimeout_def
  clearTimeout_def emit_event_def act_def setConnectionState_def new_manager_def
  default_options_def Let_def


text \<open>
  A disconnect during the channel lookup does not stop the attempt: the lookup resolves,
  the socket is created and subscribed, and the controller ends up connected with the
  manual flag still set; a \<^verbatim>\<open>connect\<close> is then ignored and leaves the flag as it is.
\<close>

lemma disconnect_during_lookup:
  "map_option (\<lambda>s. (connectionState s, isManualDisconnect s, channelName s, trace s))
     (run example_runtime
        [CallConnect ''chan'', CallDisconnect, LookupResolved 0 42, OnOpen 0, CallConnect ''other'']
        (new_manager default_options))
   = Some (Connected, True, ''chan'',
           [Fetch ''chan'', NewWebSocket 0, Send 0 42,
            Emit ''ready'' (JObj [(''channel'', JStr ''chan'')])])"
  by (simp add: step_def connect_def performConnection_def performConnection_resolved_def
      subscribeToChannel_def disconnect_def close_socket_def
      emit_event_def act_def setConnectionState_def new_manager_def default_options_def Let_def)




section \<open>Reconnect scheduling\<close>

text \<open>
  In a reachable state with \<^verbatim>\<open>autoReconnect\<close> on and the
  manual flag not set, the close of a socket sets the state to \<^verbatim>\<open>reconnecting\<close>,
  cancels the timer that was recorded and leaves exactly one timer pending, with the
  delay \<^verbatim>\<open>reconnectInterval\<close>; when that timer fires, \<^verbatim>\<open>performConnection\<close> starts.
\<close>

lemma close_schedules_reconnect:
  assumes "run rt history (new_manager opts) = Some s"
    and "autoReconnect (options s)" and "\<not> isManualDisconnect s"
    and "step rt (OnClose sid code reason) s = Some s1"
  shows "connectionState s1 = Reconnecting
       \<and> timers s1 = [(next_timer s, reconnectInterval (options s))]
       \<and> reconnectTimer s1 = Some (next_timer s)
       \<and> trace s1 = trace s
           @ [Emit ''disconnect'' (JObj [(''code'', JNum code), (''reason'', JStr reason)])]
           @ (case reconnectTimer s of Some t \<Rightarrow> [ClearTimeout t] | None \<Rightarrow> [])
           @ [SetTimeout (next_timer s) (reconnectInterval (options s))]
       \<and> (\<exists>s2. step rt (TimerFired (next_timer s)) s1 = Some s2
              \<and> connectionState s2 = Connecting \<and> timers s2 = []
              \<and> awaiting s2 = awaiting s @ [ByTimer]
              \<and> trace s2 = trace s1 @ [Fetch (channelName s)])"
proof -
  from assms(1) have tr: "timers_tracked s" by (rule timers_tracked_reachable)
  let ?s0 = "emit_event ''disconnect'' (JObj [(''code'', JNum code), (''reason'', JStr reason)])
               (setConnectionState Disconnected (s\<lparr>sockets := (sockets s)[sid := CLOSED]\<rparr>))"
  have tr0: "timers_tracked ?s0"
    using tr by (simp add: emit_event_def act_def setConnectionState_def)
  from assms(2,3,4) have "s1 = scheduleReconnect ?s0"
    by (auto simp: step_def handleDisconnect_def Let_def emit_event_def act_def
        setConnectionState_def split: if_splits)
  then have s1: "s1 = ?s0\<lparr>connectionState := Reconnecting,
             timers := [(next_timer s, reconnectInterval (options s))],
             next_timer := Suc (next_timer s),
             reconnectTimer := Some (next_timer s),
             trace := trace ?s0 @ (case reconnectTimer s of Some t \<Rightarrow> [ClearTimeout t] | None \<Rightarrow> [])
                        @ [SetTimeout (next_timer s) (reconnectInterval (options s))]\<rparr>"
    by (simp add: scheduleReconnect_fields [OF tr0])
       (simp add: emit_event_def act_def setConnectionState_def)
  show ?thesis
    unfolding s1
    by (simp add: step_def performConnection_def emit_event_def act_def setConnectionState_def)
qed

text \<open>
  C3 fails on the code. With \<^verbatim>\<open>autoReconnect\<close> on, a connected controller whose
  socket closes arms the timer; the timer fires and \<^verbatim>\<open>performConnection\<close> starts; the
  channel lookup fails. The \<^verbatim>\<open>catch\<close> of the timer callback only logs: the state stays
  \<^verbatim>\<open>connecting\<close>, no timer is pending, nothing is awaited, the only socket is closed,
  and a later \<^verbatim>\<open>connect\<close> is ignored because the state is \<^verbatim>\<open>connecting\<close>. The same
  failure under \<^verbatim>\<open>connect\<close> goes through \<^verbatim>\<open>handleConnectionError\<close> and arms the timer.
\<close>

theorem failed_reconnect_lookup_not_rescheduled:
  "map_option observe
     (run example_runtime
        [CallConnect ''chan'', LookupResolved 0 42, OnOpen 0, OnClose 0 1006 ''gone'',
         TimerFired 1, LookupRejected 0 ''HTTP 503'']
        (new_manager default_options))
   = Some (Connecting, [], [], [CLOSED],
           [Fetch ''chan'', NewWebSocket 0, Send 0 42,
            Emit ''ready'' (JObj [(''channel'', JStr ''chan'')]),
            Emit ''disconnect'' (JObj [(''code'', JNum 1006), (''reason'', JStr ''gone'')]),
            SetTimeout 1 5000, Fetch ''chan''])
   \<and> run example_runtime
        [CallConnect ''chan'', LookupResolved 0 42, OnOpen 0, OnClose 0 1006 ''gone'',
         TimerFired 1, LookupRejected 0 ''HTTP 503'', CallConnect ''chan'']
        (new_manager default_options)
     = run example_runtime
        [CallConnect ''chan'', LookupResolved 0 42, OnOpen 0, OnClose 0 1006 ''gone'',
         TimerFired 1, LookupRejected 0 ''HTTP 503'']
        (new_manager default_options)
   \<and> map_option observe
       (run example_runtime [CallConnect ''chan'', LookupRejected 0 ''HTTP 503'']
          (new_manager default_options))
     = Some (Reconnecting, [(1, 5000)], [], [],
             [Fetch ''chan'', Emit ''error'' (JStr ''HTTP 503''), SetTimeout 1 5000])"
  by (simp add: controller_eval observe_def)

section \<open>Buffer eviction\<close>

lemma addToBuffer_length:
  assumes "1 \<le> bufferSize opts" and "int (length buf) \<le> bufferSize opts"
  shows "int (length (addToBuffer opts m buf)) \<le> bufferSize opts"
  using assms by (simp add: addToBuffer_def Let_def)

lemma addToBuffer_suffix:
  assumes "1 \<le> bufferSize opts" and "int (length buf) \<le> bufferSize opts"
  shows "addToBuffer opts m buf =
         drop (length (buf @ [m]) - nat (bufferSize opts)) (buf @ [m])"
proof (cases "int (length (buf @ [m])) > bufferSize opts")
  case True
  with assms have "length (buf @ [m]) - nat (bufferSize opts) = 1" by simp
  moreover from True have "addToBuffer opts m buf = tl (buf @ [m])"
    by (simp add: addToBuffer_def Let_def)
  moreover have "tl (buf @ [m]) = drop 1 (buf @ [m])"
    by (metis One_nat_def drop_0 drop_Suc)
  ultimately show ?thesis by simp
next
  case False
  then have "length (buf @ [m]) - nat (bufferSize opts) = 0" by simp
  moreover from False have "addToBuffer opts m buf = buf @ [m]"
    by (simp add: addToBuffer_def Let_def)
  ultimately show ?thesis by simp
qed

lemma drop_window_snoc:
  fixes n :: nat
  assumes "1 \<le> n"
  shows "drop (length (drop (length fs - n) fs @ [m]) - n) (drop (length fs - n) fs @ [m])
         = drop (length (fs @ [m]) - n) (fs @ [m])"
proof (cases "length fs < n")
  case True
  then show ?thesis by simp
next
  case False
  define d where "d = length fs - n"
  from False have len: "length (drop d fs) = n" by (simp add: d_def)
  from False assms have d: "Suc d \<le> length fs" by (simp add: d_def)
  have "drop (length (drop d fs @ [m]) - n) (drop d fs @ [m]) = drop 1 (drop d fs @ [m])"
    using len by simp
  also have "\<dots> = drop 1 (drop d fs) @ [m]"
    using len assms by simp
  also have "\<dots> = drop (Suc d) fs @ [m]" by simp
  also have "\<dots> = drop (Suc d) (fs @ [m])" using d by simp
  also have "Suc d = length (fs @ [m]) - n" using False by (simp add: d_def)
  finally show ?thesis by (simp add: d_def)
qed

lemma fold_addToBuffer:
  assumes "1 \<le> bufferSize opts"
  shows "fold (addToBuffer opts) frames [] = drop (length frames - nat (bufferSize opts)) frames
         \<and> int (length (fold (addToBuffer opts) frames [])) \<le> bufferSize opts"
proof (induction frames rule: rev_induct)
  case Nil
  from assms show ?case by simp
next
  case (snoc m frames)
  let ?n = "nat (bufferSize opts)"
  let ?b = "fold (addToBuffer opts) frames []"
  from snoc have b: "?b = drop (length frames - ?n) frames"
    and len: "int (length ?b) \<le> bufferSize opts" by blast+
  from assms have n: "1 \<le> ?n" by simp
  have step: "fold (addToBuffer opts) (frames @ [m]) [] = addToBuffer opts m ?b" by simp
  have "addToBuffer opts m ?b = drop (length (?b @ [m]) - ?n) (?b @ [m])"
    by (rule addToBuffer_suffix [OF assms len])
  also have "\<dots> = drop (length (frames @ [m]) - ?n) (frames @ [m])"
    by (subst b, subst b) (rule drop_window_snoc [OF n])
  finally have eq: "addToBuffer opts m ?b = drop (length (frames @ [m]) - ?n) (frames @ [m])" .
  have l: "int (length (addToBuffer opts m ?b)) \<le> bufferSize opts"
    by (rule addToBuffer_length [OF assms len])
  show ?case unfolding step using eq l by blast
qed


text \<open>
  C5. Starting from the empty buffer with capacity \<open>N \<ge> 1\<close>, appending \<open>N + k\<close> frames
  leaves exactly the last \<open>N\<close> of them, oldest first; the buffer never holds more than
  \<open>N\<close> frames after any append on the way; and an append to a full buffer evicts exactly
  the oldest entry.
\<close>

theorem buffer_eviction:
  assumes "1 \<le> N" and "bufferSize opts = int N" and "length frames = N + k"
  shows "fold (addToBuffer opts) frames [] = drop k frames
       \<and> length (fold (addToBuffer opts) frames []) = N
       \<and> (\<forall>j. length (fold (addToBuffer opts) (take j frames) []) \<le> N)
       \<and> (\<forall>buf m. length buf = N \<longrightarrow> addToBuffer opts m buf = tl buf @ [m])"
proof -
  from assms have cap: "1 \<le> bufferSize opts" by simp
  have a: "fold (addToBuffer opts) frames [] = drop k frames"
    using fold_addToBuffer [OF cap, of frames] assms by simp
  then have b: "length (fold (addToBuffer opts) frames []) = N"
    using assms by simp
  have c: "length (fold (addToBuffer opts) (take j frames) []) \<le> N" for j
    using fold_addToBuffer [OF cap, of "take j frames"] assms by simp
  have d: "addToBuffer opts m buf = tl buf @ [m]" if "length buf = N" for buf m
  proof -
    from that assms have "buf \<noteq> []" by auto
    with that assms show ?thesis by (simp add: addToBuffer_def Let_def)
  qed
  from a b c d show ?thesis by blast
qed

theorem buffer_eviction_witness:
  "fold (addToBuffer (default_options\<lparr>bufferSize := 2\<rparr>)) [''a'', ''b'', ''c''] [] = [''b'', ''c'']
   \<and> addToBuffer (default_options\<lparr>bufferSize := 2\<rparr>) ''c'' [''a'', ''b''] = [''b'', ''c'']"
  using buffer_eviction [of 2 "default_options\<lparr>bufferSize := 2\<rparr>" "[''a'', ''b'', ''c'']" 1]
  by (simp add: default_options_def)

text \<open>
  C10. An \<^verbatim>\<open>endIndex\<close> of \<open>0\<close> is falsy, so \<^verbatim>\<open>exportRawMessagesInRange(startIndex, 0)\<close>
  is the one-argument slice: the whole suffix from \<^verbatim>\<open>startIndex\<close>, the same result as
  with \<^verbatim>\<open>endIndex\<close> omitted, where the two-argument slice would have been empty.
\<close>

theorem exportRawMessagesInRange_zero_end:
  "exportRawMessagesInRange buf startIndex (Some 0) = exportRawMessagesInRange buf startIndex None
   \<and> exportRawMessagesInRange buf startIndex (Some 0) = js_slice buf startIndex None
   \<and> js_slice buf startIndex None =
       drop (if startIndex < 0 then length buf - nat (- startIndex) else nat startIndex) buf
   \<and> js_slice buf startIndex (Some 0) = []"
  by (auto simp: exportRawMessagesInRange_def js_slice_def Let_def max_def min_def
      intro!: arg_cong2 [where f = drop])

end
